theory Spec2Isabelle
  imports Complex_Main "HOL-Library.Multiset"
begin

section \<open>Data model\<close>

text \<open>
  The repository holds four near-duplicate variants of one sequencer script. They are
  referred to by letter: variant A is the first script of \<^verbatim>\<open>src/script.js\<close> (lines 1-250),
  variant B the second (lines 252-488), variant C the third (lines 490-753), and variant D
  is \<^verbatim>\<open>src/unnamed/part_000\<close>. Variants A, B and D are modelled. Variant C is D with other
  names for the UI functions and a \<^verbatim>\<open>pause\<close> that returns at once when nothing is playing and
  resets \<^verbatim>\<open>playbackInterval\<close> to \<^verbatim>\<open>null\<close>; its export is \<^verbatim>\<open>generateApiFile\<close> with a shorter
  comment in the text.

  A note is the object \<^verbatim>\<open>{ tick, pitch, inst }\<close> pushed by \<^verbatim>\<open>toggleNote\<close>. Variants B, C
  and D store the instrument as an index into \<^verbatim>\<open>INSTRUMENTS\<close>; variant A names the third
  field \<^verbatim>\<open>instrument\<close> and stores the instrument's name, hence the type parameter.
  Ticks, pitches and instrument indices are JavaScript numbers that only ever hold
  integers (loop counters of \<^verbatim>\<open>renderGrid\<close>, \<^verbatim>\<open>parseInt\<close> of the select box).
\<close>

record 'i Note =
  tick :: int
  pitch :: int
  inst :: 'i

text \<open>
  The JavaScript numbers that are not integers by construction: the result of
  \<^verbatim>\<open>parseFloat\<close> and what is computed from it. Finite values are idealised as reals
  (no rounding, no overflow).
\<close>

datatype jsnum = NaN | PosInf | NegInf | Fin real

text \<open>
  What the script does to its collaborators (the DOM and the audio host), recorded in
  the order it happens: \<^verbatim>\<open>playPreview(inst, pitch)\<close>, a refresh of playhead, progress
  bar and clock for the tick shown, the marker of a grid cell being removed or added, and
  a file (name and text) handed to the browser for download.
\<close>

datatype 'i effect =
    Preview 'i int
  | UIUpdate int
  | CellCleared int int
  | CellMarked int int 'i
  | Download string string

text \<open>
  The module-level state (\<^verbatim>\<open>songData\<close>, \<^verbatim>\<open>isPlaying\<close>, \<^verbatim>\<open>currentTick\<close>,
  \<^verbatim>\<open>playbackInterval\<close>, \<^verbatim>\<open>selectedInst\<close>), together with the part of the host the
  script acts on: the intervals that are currently scheduled (handle and period), the
  next fresh handle, and the effects emitted so far. \<^verbatim>\<open>null\<close> is \<open>None\<close>.
\<close>

record 'i state =
  songData :: "'i Note list"
  isPlaying :: bool
  currentTick :: int
  playbackInterval :: "nat option"
  selectedInst :: 'i
  timers :: "(nat \<times> jsnum) list"
  nextTimer :: nat
  effects :: "'i effect list"

section \<open>Array primitives\<close>

text \<open>\<^verbatim>\<open>Array.prototype.findIndex\<close>: the index of the first match, \<open>-1\<close> when there is none.\<close>

fun findIndex :: "('a \<Rightarrow> bool) \<Rightarrow> 'a list \<Rightarrow> int" where
  "findIndex P [] = - 1"
| "findIndex P (x # xs) =
     (if P x then 0 else (let i = findIndex P xs in if i > - 1 then i + 1 else - 1))"

text \<open>
  \<^verbatim>\<open>xs.splice(start, 1)\<close>: a negative start counts from the end, a start beyond the end is
  the end; one element is deleted from there when there is one.
\<close>

definition splice1 :: "int \<Rightarrow> 'a list \<Rightarrow> 'a list" where
  "splice1 start xs =
     (let n = int (length xs);
          k = (if start < 0 then max (n + start) 0 else min start n)
      in take (nat k) xs @ drop (nat k + 1) xs)"

section \<open>Note logic\<close>

text \<open>
  \<^verbatim>\<open>toggleNote(tick, pitch, cell)\<close>, the same in all four variants (part_000, lines 75-90;
  script.js, lines 48-68, 323-342 and 575-594): remove the first note of the cell when
  there is one, otherwise push a note with the selected instrument, mark the cell and play
  the preview.
\<close>

definition toggleNote :: "int \<Rightarrow> int \<Rightarrow> ('i, 'z) state_scheme \<Rightarrow> ('i, 'z) state_scheme" where
  "toggleNote t p s =
     (let index = findIndex (\<lambda>n. tick n = t \<and> pitch n = p) (songData s) in
      if index > - 1
      then s\<lparr>songData := splice1 index (songData s),
             effects := effects s @ [CellCleared t p]\<rparr>
      else s\<lparr>songData := songData s @ [\<lparr>tick = t, pitch = p, inst = selectedInst s\<rparr>],
             effects := effects s @ [CellMarked t p (selectedInst s), Preview (selectedInst s) p]\<rparr>)"

text \<open>
  The \<^verbatim>\<open>change\<close> listener of the instrument select box (part_000, line 168; script.js,
  lines 140-142, 419 and 690-692).
\<close>

definition selectInstrument :: "'i \<Rightarrow> ('i, 'z) state_scheme \<Rightarrow> ('i, 'z) state_scheme" where
  "selectInstrument i s = s\<lparr>selectedInst := i\<rparr>"

text \<open>
  The specification's \<open>toggle(tick, pitch, instrument)\<close>: a click on the cell while the
  instrument is the selected one.
\<close>

definition toggle :: "int \<Rightarrow> int \<Rightarrow> 'i \<Rightarrow> ('i, 'z) state_scheme \<Rightarrow> ('i, 'z) state_scheme" where
  "toggle t p i s = toggleNote t p (selectInstrument i s)"

text \<open>A cell is occupied when the store holds a note at it.\<close>

definition occupied :: "int \<Rightarrow> int \<Rightarrow> ('i, 'y) Note_scheme list \<Rightarrow> bool" where
  "occupied t p xs = (filter (\<lambda>n. tick n = t \<and> pitch n = p) xs \<noteq> [])"

text \<open>The store's uniqueness invariant: at most one note per cell.\<close>

definition uniqueCells :: "('i, 'y) Note_scheme list \<Rightarrow> bool" where
  "uniqueCells xs = distinct (map (\<lambda>n. (tick n, pitch n)) xs)"

section \<open>Numbers and timers of the host\<close>

text \<open>
  Truthiness of a number (\<^verbatim>\<open>NaN\<close> and zero are falsy), \<^verbatim>\<open>x || y\<close> and IEEE division.
  The sign of a zero is not tracked: a zero is the positive one.
\<close>

definition js_truthy :: "jsnum \<Rightarrow> bool" where
  "js_truthy x = (case x of NaN \<Rightarrow> False | Fin r \<Rightarrow> r \<noteq> 0 | PosInf \<Rightarrow> True | NegInf \<Rightarrow> True)"

definition js_or :: "jsnum \<Rightarrow> jsnum \<Rightarrow> jsnum" where
  "js_or x y = (if js_truthy x then x else y)"

fun js_div :: "jsnum \<Rightarrow> jsnum \<Rightarrow> jsnum" where
  "js_div (Fin a) (Fin b) =
     (if b = 0 then (if a = 0 then NaN else if 0 < a then PosInf else NegInf) else Fin (a / b))"
| "js_div (Fin a) PosInf = Fin 0"
| "js_div (Fin a) NegInf = Fin 0"
| "js_div PosInf (Fin b) = (if b < 0 then NegInf else PosInf)"
| "js_div NegInf (Fin b) = (if b < 0 then PosInf else NegInf)"
| "js_div _ _ = NaN"

text \<open>
  \<^verbatim>\<open>setInterval(callback, ms)\<close> schedules a new periodic advancer under a fresh handle and
  returns the handle; \<^verbatim>\<open>clearInterval(handle)\<close> cancels the advancer of that handle and
  does nothing for \<^verbatim>\<open>null\<close> or a handle that is not scheduled. Handles are positive.
\<close>

definition setInterval :: "jsnum \<Rightarrow> ('i, 'z) state_scheme \<Rightarrow> nat \<times> ('i, 'z) state_scheme" where
  "setInterval ms s =
     (nextTimer s, s\<lparr>timers := timers s @ [(nextTimer s, ms)], nextTimer := nextTimer s + 1\<rparr>)"

definition clearInterval :: "nat option \<Rightarrow> ('i, 'z) state_scheme \<Rightarrow> ('i, 'z) state_scheme" where
  "clearInterval handle s =
     (case handle of
        None \<Rightarrow> s
      | Some h \<Rightarrow> s\<lparr>timers := filter (\<lambda>e. fst e \<noteq> h) (timers s)\<rparr>)"

text \<open>An advancer can fire only while it is scheduled.\<close>

definition scheduled :: "nat \<Rightarrow> ('i, 'z) state_scheme \<Rightarrow> bool" where
  "scheduled h s = (filter (\<lambda>e. fst e = h) (timers s) \<noteq> [])"

text \<open>
  \<^verbatim>\<open>playPreview(inst, pitch)\<close> (part_000, lines 92-95; \<^verbatim>\<open>playPreviewSound\<close> in script.js,
  lines 71-79, 347-354 and 599-605): fire-and-forget audio, a failure is swallowed.
\<close>

definition playPreview :: "'i \<Rightarrow> int \<Rightarrow> ('i, 'z) state_scheme \<Rightarrow> ('i, 'z) state_scheme" where
  "playPreview i p s = s\<lparr>effects := effects s @ [Preview i p]\<rparr>"

section \<open>Transport of variant D (\<^verbatim>\<open>src/unnamed/part_000\<close>)\<close>

text \<open>\<^verbatim>\<open>CONFIG\<close> (lines 4-8) and the state at page load (lines 16-20).\<close>

record config =
  ticksPerSecond :: int
  totalTicks :: int
  pitchRange :: int

definition CONFIG :: config where
  "CONFIG = \<lparr>ticksPerSecond = 20, totalTicks = 400, pitchRange = 25\<rparr>"

definition init :: "int state" where
  "init = \<lparr>songData = [], isPlaying = False, currentTick = 0, playbackInterval = None,
           selectedInst = 0, timers = [], nextTimer = 1, effects = []\<rparr>"

text \<open>
  \<^verbatim>\<open>updateUI()\<close> (lines 133-147) moves the playhead, scrolls, sets the progress bar and the
  clock: one UI update, for the tick that \<^verbatim>\<open>currentTick\<close> holds when it is called.
\<close>

definition updateUI :: "int state \<Rightarrow> int state" where
  "updateUI s = s\<lparr>effects := effects s @ [UIUpdate (currentTick s)]\<rparr>"

text \<open>\<^verbatim>\<open>if (playbackInterval)\<close>: a handle that is neither \<^verbatim>\<open>null\<close> nor zero.\<close>

definition truthy_handle :: "nat option \<Rightarrow> bool" where
  "truthy_handle h = (case h of None \<Rightarrow> False | Some k \<Rightarrow> k \<noteq> 0)"

text \<open>\<^verbatim>\<open>pause()\<close> (lines 122-125) and \<^verbatim>\<open>stop()\<close> (lines 127-131).\<close>

definition pause :: "int state \<Rightarrow> int state" where
  "pause s =
     (let s1 = s\<lparr>isPlaying := False\<rparr> in
      if truthy_handle (playbackInterval s1) then clearInterval (playbackInterval s1) s1 else s1)"

definition stop :: "int state \<Rightarrow> int state" where
  "stop s = updateUI ((pause s)\<lparr>currentTick := 0\<rparr>)"

text \<open>
  The callback that \<^verbatim>\<open>play\<close> hands to \<^verbatim>\<open>setInterval\<close> (lines 107-119): one scheduled
  tick-advance.
\<close>

definition advance :: "int state \<Rightarrow> int state" where
  "advance s =
     (if currentTick s \<ge> totalTicks CONFIG then stop s
      else
        let notes = filter (\<lambda>n. tick n = currentTick s) (songData s);
            s1 = fold (\<lambda>n. playPreview (inst n) (pitch n)) notes s;
            s2 = updateUI s1
        in s2\<lparr>currentTick := currentTick s2 + 1\<rparr>)"

text \<open>
  \<^verbatim>\<open>play()\<close> (lines 100-120); \<open>sp\<close> is what \<^verbatim>\<open>parseFloat\<close> returns for the text of the
  speed input at the time of the call.
\<close>

definition play :: "jsnum \<Rightarrow> int state \<Rightarrow> int state" where
  "play sp s =
     (if isPlaying s then s
      else
        let s1 = s\<lparr>isPlaying := True\<rparr>;
            speed = js_or sp (Fin 1.0);
            ms = js_div (js_div (Fin 1000) (Fin (real_of_int (ticksPerSecond CONFIG)))) speed;
            (h, s2) = setInterval ms s1
        in s2\<lparr>playbackInterval := Some h\<rparr>)"

text \<open>
  The \<^verbatim>\<open>oninput\<close> handler of the progress slider (lines 170-176); \<open>v\<close> is the slider's
  value, a percentage. The arithmetic is exact here, where the script rounds to doubles.
\<close>

definition seek :: "real \<Rightarrow> jsnum \<Rightarrow> int state \<Rightarrow> int state" where
  "seek v sp s =
     (let wasPlaying = isPlaying s;
          s1 = (if wasPlaying then pause s else s);
          s2 = s1\<lparr>currentTick := \<lfloor>(v / 100) * real_of_int (totalTicks CONFIG)\<rfloor>\<rparr>;
          s3 = updateUI s2
      in if wasPlaying then play sp s3 else s3)"

text \<open>The UI-update callbacks among the effects, by the tick they show.\<close>

definition uiUpdates :: "('i, 'z) state_scheme \<Rightarrow> int list" where
  "uiUpdates s = concat (map (\<lambda>e. case e of UIUpdate t \<Rightarrow> [t] | _ \<Rightarrow> []) (effects s))"

section \<open>Text and array primitives of the export\<close>

text \<open>
  A number that holds an integer prints in decimal, with a minus sign when negative
  (template literals and \<^verbatim>\<open>Array.prototype.join\<close>).
\<close>

text \<open>The decimal digit of a number below ten.\<close>

definition digit :: "nat \<Rightarrow> char" where
  "digit n = ''0123456789'' ! n"

fun show_nat :: "nat \<Rightarrow> string" where
  "show_nat n = (if n < 10 then [digit n] else show_nat (n div 10) @ [digit (n mod 10)])"

declare show_nat.simps [simp del]

definition show_int :: "int \<Rightarrow> string" where
  "show_int i = (if i < 0 then CHR ''-'' # show_nat (nat (- i)) else show_nat (nat i))"

fun join :: "string \<Rightarrow> string list \<Rightarrow> string" where
  "join sep [] = []"
| "join sep [x] = x"
| "join sep (x # y # ys) = x @ sep @ join sep (y # ys)"

text \<open>
  \<^verbatim>\<open>Array.prototype.sort(compare)\<close> sorts in place and is stable: elements the comparator
  does not separate keep their order. For a consistent comparator the result is the one of
  a stable insertion sort.
\<close>

fun insert_by :: "('a \<Rightarrow> 'a \<Rightarrow> int) \<Rightarrow> 'a \<Rightarrow> 'a list \<Rightarrow> 'a list" where
  "insert_by cmp x [] = [x]"
| "insert_by cmp x (y # ys) = (if cmp x y \<le> 0 then x # y # ys else y # insert_by cmp x ys)"

definition js_sort :: "('a \<Rightarrow> 'a \<Rightarrow> int) \<Rightarrow> 'a list \<Rightarrow> 'a list" where
  "js_sort cmp xs = foldr (insert_by cmp) xs []"

text \<open>\<^verbatim>\<open>xs[i]\<close>: \<^verbatim>\<open>undefined\<close>, here \<open>None\<close>, outside the array.\<close>

definition index :: "'a list \<Rightarrow> int \<Rightarrow> 'a option" where
  "index xs i = (if 0 \<le> i \<and> i < int (length xs) then Some (xs ! nat i) else None)"

text \<open>\<^verbatim>\<open>Math.floor(Math.random() * n) + k\<close>, for the value \<open>r\<close> that \<^verbatim>\<open>Math.random()\<close> returns.\<close>

definition random_int :: "real \<Rightarrow> int \<Rightarrow> int \<Rightarrow> int" where
  "random_int r n k = \<lfloor>r * real_of_int n\<rfloor> + k"

section \<open>Export of variant D: \<^verbatim>\<open>generateFile\<close>\<close>

text \<open>
  The object that the generated module exports as \<^verbatim>\<open>Music<id>\<close>: \<^verbatim>\<open>id\<close>, \<^verbatim>\<open>speed\<close> (the text
  of the speed input, printed as given), \<^verbatim>\<open>instruments\<close> and \<^verbatim>\<open>data\<close>, the array of
  \<^verbatim>\<open>[tick, inst, pitch]\<close> that the text \<^verbatim>\<open>[${dataStr}]\<close> denotes.
\<close>

record artifact =
  moduleId :: int
  moduleSpeed :: string
  instruments :: "string list"
  data :: "(int \<times> int \<times> int) list"

text \<open>An entry \<^verbatim>\<open>{ sound, pitch }\<close> returned by the module's \<^verbatim>\<open>getNotesAt\<close>.\<close>

record entry =
  sound :: "string option"
  pitch' :: real

text \<open>
  \<^verbatim>\<open>getNotesAt(tick)\<close> of the generated module (lines 204-209). \<^verbatim>\<open>Math.pow\<close> is the real
  power here, where the script computes in doubles.
\<close>

definition getNotesAt :: "artifact \<Rightarrow> int \<Rightarrow> entry list" where
  "getNotesAt this t =
     map (\<lambda>n. \<lparr>sound = index (instruments this) (fst (snd n)),
                pitch' = 2 powr ((real_of_int (snd (snd n)) - 12) / 12)\<rparr>)
       (filter (\<lambda>n. fst n = t) (data this))"

text \<open>The text of the module, \<^verbatim>\<open>content\<close> in \<^verbatim>\<open>generateFile\<close> (lines 195-210).\<close>

definition content :: "int \<Rightarrow> string \<Rightarrow> string \<Rightarrow> string" where
  \<open>content id' speed dataStr = join ''\<newline>''
     [''/**'',
      '' * Bedrock Music API - Track '' @ show_int id',
      '' * Originally generated text, saved as JS module.'',
      '' */'',
      ''export const Music'' @ show_int id' @ '' = {'',
      ''    id: '' @ show_int id' @ '','',
      ''    speed: '' @ speed @ '','',
      ''    instruments: ["note.harp", "note.bass", "note.guitar", "note.banjo", "note.pling"],'',
      ''    data: ['' @ dataStr @ ''], // [tick, inst, pitch]'',
      ''    getNotesAt(tick) {'',
      ''        return this.data.filter(n => n[0] === tick).map(n => ({'',
      ''            sound: this.instruments[n[1]],'',
      ''            pitch: Math.pow(2, (n[2] - 12) / 12)'',
      ''        }));'',
      ''    }'',
      ''};'']\<close>

text \<open>
  \<^verbatim>\<open>generateFile()\<close> (lines 185-224): \<open>r\<close> is the value of \<^verbatim>\<open>Math.random()\<close>, \<open>speed\<close> the
  text of the speed input. It returns the state it leaves and the module it offers for
  download.
\<close>

definition generateFile :: "real \<Rightarrow> string \<Rightarrow> int state \<Rightarrow> int state \<times> artifact" where
  "generateFile r speed s =
     (let id' = random_int r 900 100;
          s1 = s\<lparr>songData := js_sort (\<lambda>a b. tick a - tick b) (songData s)\<rparr>;
          dataStr = join '','' (map (\<lambda>n. ''['' @ show_int (tick n) @ '','' @ show_int (inst n)
                                   @ '','' @ show_int (pitch n) @ '']'') (songData s1));
          text = content id' speed dataStr;
          filename = ''music'' @ show_int id' @ ''.js''
      in (s1\<lparr>effects := effects s1 @ [Download filename text]\<rparr>,
          \<lparr>moduleId = id', moduleSpeed = speed,
           instruments = [''note.harp'', ''note.bass'', ''note.guitar'', ''note.banjo'', ''note.pling''],
           data = map (\<lambda>n. (tick n, inst n, pitch n)) (songData s1)\<rparr>))"

text \<open>
  The file name that the last effect of a state, a download, was offered under (empty when
  the last effect is no download).
\<close>

definition lastDownload :: "('i, 'z) state_scheme \<Rightarrow> string" where
  "lastDownload s =
     (case rev (effects s) of
        Download name text # _ \<Rightarrow> name
      | _ \<Rightarrow> [])"

section \<open>Variant B (\<^verbatim>\<open>src/script.js\<close>, lines 252-488)\<close>

text \<open>
  Variant B has the configuration and the initial state of variant D. Its \<^verbatim>\<open>play\<close>
  (lines 363-391) does not test \<^verbatim>\<open>isPlaying\<close>; its \<^verbatim>\<open>pause\<close> (lines 393-396) clears the
  interval without testing the handle; \<^verbatim>\<open>stop\<close> is at lines 398-403. The UI update of the
  advancer (lines 368-390) and of \<^verbatim>\<open>stop\<close> is the progress bar, \<^verbatim>\<open>updateTimeDisplay()\<close> and the
  scrolling.
\<close>

definition updateTimeDisplay_B :: "int state \<Rightarrow> int state" where
  "updateTimeDisplay_B s = s\<lparr>effects := effects s @ [UIUpdate (currentTick s)]\<rparr>"

definition pause_B :: "int state \<Rightarrow> int state" where
  "pause_B s = clearInterval (playbackInterval s) (s\<lparr>isPlaying := False\<rparr>)"

definition stop_B :: "int state \<Rightarrow> int state" where
  "stop_B s = updateTimeDisplay_B ((pause_B s)\<lparr>currentTick := 0\<rparr>)"

definition advance_B :: "int state \<Rightarrow> int state" where
  "advance_B s =
     (if currentTick s \<ge> totalTicks CONFIG then stop_B s
      else
        let notes = filter (\<lambda>n. tick n = currentTick s) (songData s);
            s1 = fold (\<lambda>n. playPreview (inst n) (pitch n)) notes s;
            s2 = updateTimeDisplay_B s1
        in s2\<lparr>currentTick := currentTick s2 + 1\<rparr>)"

definition play_B :: "jsnum \<Rightarrow> int state \<Rightarrow> int state" where
  "play_B sp s =
     (let s1 = s\<lparr>isPlaying := True\<rparr>;
          speed = js_or sp (Fin 1.0);
          msPerTick = js_div (js_div (Fin 1000) (Fin (real_of_int (ticksPerSecond CONFIG)))) speed;
          (h, s2) = setInterval msPerTick s1
      in s2\<lparr>playbackInterval := Some h\<rparr>)"

text \<open>An advancer of variant B firing.\<close>

definition fire_B :: "nat \<Rightarrow> int state \<Rightarrow> int state" where
  "fire_B h s = (if scheduled h s then advance_B s else s)"

text \<open>
  The export of variant B, \<^verbatim>\<open>generateApiFile\<close> (lines 434-475), with its text (lines
  447-472). The module it exports has the fields and the query of variant D's.
\<close>

definition content_B :: "int \<Rightarrow> string \<Rightarrow> string \<Rightarrow> string" where
  \<open>content_B fileId speed dataString = join ''\<newline>''
     [''/**'',
      '' * Bedrock Music API - Track '' @ show_int fileId,
      '' * Generated via Web Composer'',
      '' */'',
      '''',
      ''export const Music'' @ show_int fileId @ '' = {'',
      ''    id: '' @ show_int fileId @ '','',
      ''    speed: '' @ speed @ '','',
      ''    instruments: ["note.harp", "note.bass", "note.guitar", "note.banjo", "note.pling"],'',
      ''    '',
      ''    // Data Format: [tick, instrument_index, pitch_index(0-24)]'',
      ''    data: ['' @ dataString @ ''],'',
      '''',
      ''    /**'',
      ''     * Helper to get playable data for a specific tick'',
      ''     * @param {number} currentTick'',
      ''     */'',
      ''    getNotesAt(currentTick) {'',
      ''        return this.data.filter(n => n[0] === currentTick).map(n => {'',
      ''            return {'',
      ''                sound: this.instruments[n[1]],'',
      ''                pitch: Math.pow(2, (n[2] - 12) / 12) // Convert index to Bedrock float pitch'',
      ''            };'',
      ''        });'',
      ''    }'',
      ''};'']\<close>

definition generateApiFile :: "real \<Rightarrow> string \<Rightarrow> int state \<Rightarrow> int state \<times> artifact" where
  "generateApiFile r speed s =
     (let fileId = random_int r 900 100;
          filename = ''music'' @ show_int fileId @ ''.js'';
          s1 = s\<lparr>songData := js_sort (\<lambda>a b. tick a - tick b) (songData s)\<rparr>;
          dataString = join '','' (map (\<lambda>n. ''['' @ show_int (tick n) @ '','' @ show_int (inst n)
                                      @ '','' @ show_int (pitch n) @ '']'') (songData s1));
          fileContent = content_B fileId speed dataString
      in (s1\<lparr>effects := effects s1 @ [Download filename fileContent]\<rparr>,
          \<lparr>moduleId = fileId, moduleSpeed = speed,
           instruments = [''note.harp'', ''note.bass'', ''note.guitar'', ''note.banjo'', ''note.pling''],
           data = map (\<lambda>n. (tick n, inst n, pitch n)) (songData s1)\<rparr>))"

section \<open>Variant A (\<^verbatim>\<open>src/script.js\<close>, lines 1-250)\<close>

text \<open>The constants (lines 2-4).\<close>

definition TICKS_PER_SECOND :: int where
  "TICKS_PER_SECOND = 20"

definition NOTES_COUNT :: int where
  "NOTES_COUNT = 25"

definition TOTAL_TICKS :: int where
  "TOTAL_TICKS = 200"

text \<open>
  Variant A keeps the speed in a variable of its own and selects instruments by name
  (\<^verbatim>\<open>currentInstrument\<close> is the field \<open>selectedInst\<close>); its state is at lines 7-12.
\<close>

record state_A = "string state" +
  speed :: jsnum

definition init_A :: state_A where
  "init_A = \<lparr>songData = [], isPlaying = False, currentTick = 0, playbackInterval = None,
             selectedInst = ''harp'', timers = [], nextTimer = 1, effects = [], speed = Fin 1.0\<rparr>"

text \<open>
  \<^verbatim>\<open>updateTimeDisplay()\<close> (lines 121-126), together with the assignment to the progress bar
  that precedes it in the advancer and in \<^verbatim>\<open>stop\<close>: one UI update.
\<close>

definition updateTimeDisplay_A :: "state_A \<Rightarrow> state_A" where
  "updateTimeDisplay_A s = s\<lparr>effects := effects s @ [UIUpdate (currentTick s)]\<rparr>"

text \<open>\<^verbatim>\<open>pause()\<close> (lines 109-112) and \<^verbatim>\<open>stop()\<close> (lines 114-119).\<close>

definition pause_A :: "state_A \<Rightarrow> state_A" where
  "pause_A s = clearInterval (playbackInterval s) (s\<lparr>isPlaying := False\<rparr>)"

definition stop_A :: "state_A \<Rightarrow> state_A" where
  "stop_A s = updateTimeDisplay_A ((pause_A s)\<lparr>currentTick := 0\<rparr>)"

text \<open>
  The advancer of variant A (lines 87-106); \<open>repeat\<close> is the state of the repeat checkbox
  when it fires.
\<close>

definition advance_A :: "bool \<Rightarrow> state_A \<Rightarrow> state_A" where
  "advance_A repeat s =
     (if currentTick s \<ge> TOTAL_TICKS \<and> \<not> repeat then stop_A s
      else
        let s0 = (if currentTick s \<ge> TOTAL_TICKS then s\<lparr>currentTick := 0\<rparr> else s);
            notes = filter (\<lambda>n. tick n = currentTick s0) (songData s0);
            s1 = fold (\<lambda>n. playPreview (inst n) (pitch n)) notes s0;
            s2 = updateTimeDisplay_A s1
        in s2\<lparr>currentTick := currentTick s2 + 1\<rparr>)"

text \<open>\<^verbatim>\<open>play()\<close> (lines 82-107).\<close>

definition play_A :: "state_A \<Rightarrow> state_A" where
  "play_A s =
     (if isPlaying s then s
      else
        let s1 = s\<lparr>isPlaying := True\<rparr>;
            tickRate = js_div (js_div (Fin 1000) (Fin (real_of_int TICKS_PER_SECOND))) (speed s1);
            (h, s2) = setInterval tickRate s1
        in s2\<lparr>playbackInterval := Some h\<rparr>)"

text \<open>
  The \<^verbatim>\<open>change\<close> listener of the speed input (lines 144-147); \<open>sp\<close> is
  \<^verbatim>\<open>parseFloat(e.target.value)\<close>.
\<close>

definition speedChange_A :: "jsnum \<Rightarrow> state_A \<Rightarrow> state_A" where
  "speedChange_A sp s =
     (let s1 = s\<lparr>speed := sp\<rparr> in if isPlaying s1 then play_A (pause_A s1) else s1)"

text \<open>The \<^verbatim>\<open>input\<close> listener of the progress bar (lines 149-152): it does not pause.\<close>

definition seek_A :: "real \<Rightarrow> state_A \<Rightarrow> state_A" where
  "seek_A v s =
     updateTimeDisplay_A (s\<lparr>currentTick := \<lfloor>(v / 100) * real_of_int TOTAL_TICKS\<rfloor>\<rparr>)"

subsection \<open>Export of variant A: \<^verbatim>\<open>generateBedrockScript\<close>\<close>

text \<open>The sound identifiers by instrument name (lines 165-171).\<close>

definition mcInstruments :: "string \<Rightarrow> string option" where
  "mcInstruments = [''harp'' \<mapsto> ''note.harp'', ''bass'' \<mapsto> ''note.bass'',
     ''guitar'' \<mapsto> ''note.guitar'', ''banjo'' \<mapsto> ''note.banjo'', ''pling'' \<mapsto> ''note.pling'']"

text \<open>
  \<^verbatim>\<open>x.toFixed(2)\<close> for a number that is not negative: the integer \<open>n\<close> with \<open>n / 100\<close> nearest
  to \<open>x\<close>, the larger one of two, printed with two decimals.
\<close>

definition hundredths :: "real \<Rightarrow> int" where
  "hundredths x = \<lfloor>x * 100 + 1 / 2\<rfloor>"

definition toFixed2 :: "real \<Rightarrow> string" where
  "toFixed2 x =
     (let n = nat (hundredths x)
      in show_nat (n div 100) @ ''.'' @ [digit (n div 10 mod 10), digit (n mod 10)])"

text \<open>
  An element \<^verbatim>\<open>{ tick, sound, pitch }\<close> of the \<^verbatim>\<open>songData\<close> array of the generated
  script; its pitch is the value of the two-decimal literal.
\<close>

record song_entry =
  entry_tick :: int
  entry_sound :: string
  entry_pitch :: real

record script_A =
  SONG_ID :: int
  script_songData :: "song_entry list"

text \<open>
  The notes that \<^verbatim>\<open>playSong\<close> of the generated script (lines 210-232) plays at a tick.
\<close>

definition playSong_notes :: "script_A \<Rightarrow> int \<Rightarrow> song_entry list" where
  "playSong_notes script t = filter (\<lambda>n. entry_tick n = t) (script_songData script)"

text \<open>
  The text of the script, \<^verbatim>\<open>scriptContent\<close> (lines 180-233); the section sign is the
  character of code 167.
\<close>

definition scriptContent :: "string \<Rightarrow> int \<Rightarrow> string \<Rightarrow> string" where
  \<open>scriptContent fileName fileId notesCode = join ''\<newline>''
     ['''',
      ''/**'',
      '' * '' @ fileName,
      '' * Generated by AI Web Composer'',
      '' * '',
      '' * INSTRUCTIONS:'',
      '' * 1. Place this file in your behavior pack scripts folder.'',
      '' * 2. In game, run: /scriptevent music:play '' @ show_int fileId,
      '' */'',
      '''',
      ''import { world, system } from "@minecraft/server";'',
      '''',
      ''const songData = ['',
      ''    '' @ notesCode,
      ''];'',
      '''',
      ''const SONG_ID = '' @ show_int fileId @ '';'',
      ''const TOTAL_TICKS = '' @ show_int TOTAL_TICKS @ '';'',
      '''',
      ''// Listen for the slash command'',
      ''system.afterEvents.scriptEventReceive.subscribe((event) => {'',
      ''    if (event.id === "music:play" && event.message === "'' @ show_int fileId @ ''") {'',
      ''        const player = event.sourceEntity;'',
      ''        if (!player) return;'',
      ''        '',
      ''        world.sendMessage(`'' @ [CHR 0xA7] @ ''aPlaying music track '' @ show_int fileId @ ''...`);'',
      ''        playSong(player);'',
      ''    }'',
      ''});'',
      '''',
      ''function playSong(entity) {'',
      ''    let currentTick = 0;'',
      ''    '',
      ''    const runId = system.runInterval(() => {'',
      ''        if (currentTick >= TOTAL_TICKS) {'',
      ''            system.clearRun(runId);'',
      ''            world.sendMessage("'' @ [CHR 0xA7] @ ''eMusic finished.");'',
      ''            return;'',
      ''        }'',
      '''',
      ''        // Find notes for this tick'',
      ''        const notes = songData.filter(n => n.tick === currentTick);'',
      ''        '',
      ''        for (const note of notes) {'',
      ''            entity.dimension.playSound(note.sound, entity.location, {'',
      ''                pitch: note.pitch,'',
      ''                volume: 1.0'',
      ''            });'',
      ''        }'',
      '''',
      ''        currentTick++;'',
      ''    }, 1); // Run every tick'',
      ''}'',
      '''']\<close>

text \<open>
  \<^verbatim>\<open>generateBedrockScript()\<close> (lines 160-236): \<open>r\<close> is the value of \<^verbatim>\<open>Math.random()\<close>. It
  returns the state it leaves and the script it offers for download, with the notes in the
  order and with the pitch literals of \<^verbatim>\<open>notesCode\<close> (lines 175-178).
\<close>

definition generateBedrockScript :: "real \<Rightarrow> state_A \<Rightarrow> state_A \<times> script_A" where
  \<open>generateBedrockScript r s =
     (let fileId = random_int r 1000 1;
          fileName = ''music'' @ show_int fileId @ ''.js'';
          sound_of = (\<lambda>note. case mcInstruments (inst note) of
                                Some name \<Rightarrow> name | None \<Rightarrow> ''undefined'');
          mcPitch = (\<lambda>note. 2 powr ((real_of_int (pitch note) - 12) / 12));
          notesCode = join '',\<newline>    ''
            (map (\<lambda>note. ''{ tick: '' @ show_int (tick note) @ '', sound: "'' @ sound_of note
                          @ ''", pitch: '' @ toFixed2 (mcPitch note) @ '' }'') (songData s))
      in (s\<lparr>effects := effects s @ [Download fileName (scriptContent fileName fileId notesCode)]\<rparr>,
          \<lparr>SONG_ID = fileId,
           script_songData = map (\<lambda>note. \<lparr>entry_tick = tick note, entry_sound = sound_of note,
                                   entry_pitch = real_of_int (hundredths (mcPitch note)) / 100\<rparr>)
                               (songData s)\<rparr>))\<close>

section \<open>Sessions\<close>

text \<open>
  The events of a session of variant D: the transport buttons and the slider, a scheduled
  advancer firing, a click on a grid cell, the instrument select box and the download
  button. An advancer that is not scheduled does not fire.
\<close>

datatype event =
    Play jsnum
  | Pause
  | Stop
  | Seek real jsnum
  | Fire nat
  | Click int int
  | Select int
  | Export real string

fun step :: "int state \<Rightarrow> event \<Rightarrow> int state" where
  "step s (Play sp) = play sp s"
| "step s Pause = pause s"
| "step s Stop = stop s"
| "step s (Seek v sp) = seek v sp s"
| "step s (Fire h) = (if scheduled h s then advance s else s)"
| "step s (Click t p) = toggleNote t p s"
| "step s (Select i) = selectInstrument i s"
| "step s (Export r txt) = fst (generateFile r txt s)"

definition run :: "event list \<Rightarrow> int state" where
  "run evs = foldl step init evs"

text \<open>
  The slider only produces values of its range, 0 to 100, and \<^verbatim>\<open>Math.random()\<close> values from
  0 up to, not including, 1.
\<close>

fun in_range :: "event \<Rightarrow> bool" where
  "in_range (Seek v sp) = (0 \<le> v \<and> v \<le> 100)"
| "in_range (Export r txt) = (0 \<le> r \<and> r < 1)"
| "in_range _ = True"

text \<open>\<open>n\<close> successive firings of the advancer with handle \<open>h\<close>.\<close>

primrec fires :: "nat \<Rightarrow> nat \<Rightarrow> int state \<Rightarrow> int state" where
  "fires h 0 s = s"
| "fires h (Suc n) s = step (fires h n s) (Fire h)"

text \<open>The events of a session of variant A; a firing carries the state of the repeat checkbox.\<close>

datatype event_A =
    Play_A
  | Pause_A
  | Stop_A
  | Seek_A real
  | Fire_A nat bool
  | Click_A int int
  | Select_A string
  | Speed_A jsnum
  | Export_A real

fun step_A :: "state_A \<Rightarrow> event_A \<Rightarrow> state_A" where
  "step_A s Play_A = play_A s"
| "step_A s Pause_A = pause_A s"
| "step_A s Stop_A = stop_A s"
| "step_A s (Seek_A v) = seek_A v s"
| "step_A s (Fire_A h repeat) = (if scheduled h s then advance_A repeat s else s)"
| "step_A s (Click_A t p) = toggleNote t p s"
| "step_A s (Select_A i) = selectInstrument i s"
| "step_A s (Speed_A sp) = speedChange_A sp s"
| "step_A s (Export_A r) = fst (generateBedrockScript r s)"

definition run_A :: "event_A list \<Rightarrow> state_A" where
  "run_A evs = foldl step_A init_A evs"

fun in_range_A :: "event_A \<Rightarrow> bool" where
  "in_range_A (Seek_A v) = (0 \<le> v \<and> v \<le> 100)"
| "in_range_A (Export_A r) = (0 \<le> r \<and> r < 1)"
| "in_range_A _ = True"

primrec fires_A :: "nat \<Rightarrow> bool \<Rightarrow> nat \<Rightarrow> state_A \<Rightarrow> state_A" where
  "fires_A h repeat 0 s = s"
| "fires_A h repeat (Suc n) s = step_A (fires_A h repeat n s) (Fire_A h repeat)"

section \<open>Properties of sessions\<close>

text \<open>
  The scheduling discipline of a transport: while it is playing, exactly one advancer is
  scheduled and \<^verbatim>\<open>playbackInterval\<close> holds its handle; while it is not, none is.
\<close>

definition one_advancer :: "('i, 'z) state_scheme \<Rightarrow> bool" where
  "one_advancer s =
     (0 < nextTimer s \<and>
      (if isPlaying s
       then (case playbackInterval s of
               None \<Rightarrow> False
             | Some h \<Rightarrow> 0 < h \<and> map fst (timers s) = [h])
       else timers s = []))"

text \<open>
  A transport at rest at the start: not playing, nothing scheduled, \<^verbatim>\<open>currentTick\<close> zero.
\<close>

definition stopped_at_start :: "('i, 'z) state_scheme \<Rightarrow> bool" where
  "stopped_at_start s = (one_advancer s \<and> \<not> isPlaying s \<and> currentTick s = 0)"

text \<open>
  The state after \<^verbatim>\<open>play()\<close> and \<open>n\<close> firings of the advancer it scheduled; in variant A with
  the repeat checkbox off.
\<close>

definition played :: "jsnum \<Rightarrow> nat \<Rightarrow> int state \<Rightarrow> int state" where
  "played sp n s = fires (nextTimer s) n (play sp s)"

definition played_A :: "nat \<Rightarrow> state_A \<Rightarrow> state_A" where
  "played_A n s = fires_A (nextTimer s) False n (play_A s)"

text \<open>
  The specification's pitch-to-frequency mapper, stated from its words:
  \<open>pitchRatio(pitchIndex) = 2^((pitchIndex - centerIndex) / 12)\<close> with \<open>centerIndex = 12\<close>. The
  scripts have no function of that name; they write the formula where they use it.
\<close>

definition centerIndex :: int where
  "centerIndex = 12"

definition pitchRatio :: "int \<Rightarrow> real" where
  "pitchRatio pitchIndex = 2 powr (real_of_int (pitchIndex - centerIndex) / 12)"

text \<open>The triple \<^verbatim>\<open>[tick, inst, pitch]\<close> that encodes a note.\<close>

definition triple :: "int Note \<Rightarrow> int \<times> int \<times> int" where
  "triple n = (tick n, inst n, pitch n)"

section \<open>The note store under toggling\<close>

lemma findIndex_found: "(findIndex P xs > - 1) = (filter P xs \<noteq> [])"
  by (induction xs) (auto simp: Let_def)

lemma findIndex_takeWhile:
  "filter P xs \<noteq> [] \<Longrightarrow> findIndex P xs = int (length (takeWhile (\<lambda>x. \<not> P x) xs))"
  by (induction xs) (auto simp: Let_def findIndex_found split: if_splits)

lemma splice1_findIndex:
  assumes "filter P xs \<noteq> []"
  shows "splice1 (findIndex P xs) xs =
           takeWhile (\<lambda>x. \<not> P x) xs @ tl (dropWhile (\<lambda>x. \<not> P x) xs)"
proof -
  let ?k = "length (takeWhile (\<lambda>x. \<not> P x) xs)"
  have k: "findIndex P xs = int ?k" using assms by (rule findIndex_takeWhile)
  have le: "?k \<le> length xs" by (rule length_takeWhile_le)
  have a: "take ?k xs = takeWhile (\<lambda>x. \<not> P x) xs"
    by (rule takeWhile_eq_take[symmetric])
  have b: "drop (?k + 1) xs = tl (dropWhile (\<lambda>x. \<not> P x) xs)"
    unfolding dropWhile_eq_drop by (simp add: drop_Suc tl_drop)
  have "splice1 (int ?k) xs = take ?k xs @ drop (?k + 1) xs"
    using le by (simp add: splice1_def Let_def min_def)
  then show ?thesis unfolding k a b .
qed

text \<open>Splicing at the index found deletes the first match and nothing else.\<close>

lemma first_match_split:
  assumes "filter P xs \<noteq> []"
  shows "\<exists>ys n zs. xs = ys @ n # zs \<and> P n \<and> filter P ys = [] \<and>
           splice1 (findIndex P xs) xs = ys @ zs"
proof -
  let ?ys = "takeWhile (\<lambda>x. \<not> P x) xs" and ?ds = "dropWhile (\<lambda>x. \<not> P x) xs"
  from assms have "?ds \<noteq> []" by (auto simp: filter_empty_conv)
  then obtain n zs where ds: "?ds = n # zs" by (cases ?ds) auto
  then have "P n" using hd_dropWhile[of "\<lambda>x. \<not> P x" xs] by auto
  moreover have "xs = ?ys @ n # zs"
    using takeWhile_dropWhile_id[of "\<lambda>x. \<not> P x" xs] ds by simp
  moreover have "filter P ?ys = []" by (auto simp: filter_empty_conv dest: set_takeWhileD)
  moreover have "splice1 (findIndex P xs) xs = ?ys @ zs"
    using splice1_findIndex[OF assms] ds by simp
  ultimately show ?thesis by blast
qed

lemma songData_toggleNote:
  "songData (toggleNote t p s) =
     (if occupied t p (songData s)
      then splice1 (findIndex (\<lambda>n. tick n = t \<and> pitch n = p) (songData s)) (songData s)
      else songData s @ [\<lparr>tick = t, pitch = p, inst = selectedInst s\<rparr>])"
  by (simp add: toggleNote_def Let_def findIndex_found occupied_def)

lemma songData_toggle:
  "songData (toggle t p i s) =
     (if occupied t p (songData s)
      then splice1 (findIndex (\<lambda>n. tick n = t \<and> pitch n = p) (songData s)) (songData s)
      else songData s @ [\<lparr>tick = t, pitch = p, inst = i\<rparr>])"
  by (simp add: toggle_def selectInstrument_def songData_toggleNote)

lemma uniqueCells_filter_cell:
  assumes "uniqueCells (ys @ n # zs)" "tick n = t" "pitch n = p"
  shows "filter (\<lambda>m. \<not> (tick m = t \<and> pitch m = p)) (ys @ n # zs) = ys @ zs"
    and "\<not> occupied t p (ys @ zs)"
proof -
  have other: "\<not> (tick m = t \<and> pitch m = p)" if "m \<in> set ys \<union> set zs" for m
    using assms that by (auto simp: uniqueCells_def image_iff)
  then have "filter (\<lambda>m. \<not> (tick m = t \<and> pitch m = p)) ys = ys"
    and "filter (\<lambda>m. \<not> (tick m = t \<and> pitch m = p)) zs = zs"
    by (simp_all add: filter_id_conv)
  then show "filter (\<lambda>m. \<not> (tick m = t \<and> pitch m = p)) (ys @ n # zs) = ys @ zs"
    using assms(2,3) by simp
  show "\<not> occupied t p (ys @ zs)"
    using other by (auto simp: occupied_def filter_empty_conv)
qed

text \<open>
  Claim C10. Toggling a cell affects only that cell. For every store and every cell
  \<open>(t, p)\<close>, the notes of the other cells are the same after \<open>toggle t p i\<close>, with the same
  fields and in the same relative order. When the cell holds a note, exactly one element is
  deleted, the first note of the cell; otherwise the new note is appended at the end.
\<close>

theorem toggle_frame:
  "filter (\<lambda>n. \<not> (tick n = t \<and> pitch n = p)) (songData (toggle t p i s)) =
     filter (\<lambda>n. \<not> (tick n = t \<and> pitch n = p)) (songData s)
   \<and> (if occupied t p (songData s)
      then (\<exists>ys n zs. songData s = ys @ n # zs \<and> tick n = t \<and> pitch n = p \<and>
              \<not> occupied t p ys \<and> songData (toggle t p i s) = ys @ zs)
           \<and> length (songData (toggle t p i s)) + 1 = length (songData s)
      else songData (toggle t p i s) = songData s @ [\<lparr>tick = t, pitch = p, inst = i\<rparr>])"
proof (cases "occupied t p (songData s)")
  case False
  then show ?thesis by (simp add: songData_toggle)
next
  case True
  let ?P = "\<lambda>n::'a Note. tick n = t \<and> pitch n = p"
  from True have "filter ?P (songData s) \<noteq> []" by (simp add: occupied_def)
  from first_match_split[OF this] obtain ys n zs where
    xs: "songData s = ys @ n # zs" and n: "?P n" and ys: "filter ?P ys = []"
    and sp: "splice1 (findIndex ?P (songData s)) (songData s) = ys @ zs" by blast
  have res: "songData (toggle t p i s) = ys @ zs" using True sp by (simp add: songData_toggle)
  have 1: "filter (\<lambda>n. \<not> ?P n) (songData (toggle t p i s)) = filter (\<lambda>n. \<not> ?P n) (songData s)"
    using n by (simp add: res xs)
  have 2: "\<exists>ys n zs. songData s = ys @ n # zs \<and> tick n = t \<and> pitch n = p \<and>
              \<not> occupied t p ys \<and> songData (toggle t p i s) = ys @ zs"
    using xs n ys res unfolding occupied_def by blast
  have 3: "length (songData (toggle t p i s)) + 1 = length (songData s)"
    by (simp add: res xs)
  from 1 2 3 True show ?thesis by simp
qed

text \<open>
  Claim C2, as amended. For every cell \<open>(t, p)\<close>, every instrument and every store with at
  most one note per cell, two successive toggles of the cell restore its occupancy and keep
  the store's invariant. A cell that was empty is empty again and the store is exactly what
  it was; a cell that held a note holds one again: the old note is gone and a new note with
  the selected instrument stands at the end of the store.
\<close>

theorem toggle_twice:
  assumes "uniqueCells (songData s)"
  shows "uniqueCells (songData (toggle t p i (toggle t p i s)))
       \<and> occupied t p (songData (toggle t p i (toggle t p i s))) = occupied t p (songData s)
       \<and> (if occupied t p (songData s)
          then songData (toggle t p i (toggle t p i s)) =
                 filter (\<lambda>n. \<not> (tick n = t \<and> pitch n = p)) (songData s)
                 @ [\<lparr>tick = t, pitch = p, inst = i\<rparr>]
          else songData (toggle t p i (toggle t p i s)) = songData s)"
proof (cases "occupied t p (songData s)")
  case False
  let ?P = "\<lambda>n::'a Note. tick n = t \<and> pitch n = p"
  let ?new = "\<lparr>tick = t, pitch = p, inst = i\<rparr>"
  have s1: "songData (toggle t p i s) = songData s @ [?new]"
    using False by (simp add: songData_toggle)
  have occ1: "occupied t p (songData (toggle t p i s))" by (simp add: s1 occupied_def)
  have nomatch: "filter ?P (songData s) = []" using False by (simp add: occupied_def)
  have "findIndex ?P (songData s @ [?new]) = int (length (songData s))"
    using nomatch by (subst findIndex_takeWhile) (auto simp: filter_empty_conv takeWhile_append)
  then have "splice1 (findIndex ?P (songData s @ [?new])) (songData s @ [?new]) = songData s"
    by (simp add: splice1_def Let_def)
  then have "songData (toggle t p i (toggle t p i s)) = songData s"
    using occ1 by (simp add: songData_toggle[of t p i "toggle t p i s"] s1)
  then show ?thesis using False assms by simp
next
  case True
  let ?P = "\<lambda>n::'a Note. tick n = t \<and> pitch n = p"
  let ?new = "\<lparr>tick = t, pitch = p, inst = i\<rparr>"
  from True have "filter ?P (songData s) \<noteq> []" by (simp add: occupied_def)
  from first_match_split[OF this] obtain ys n zs where
    xs: "songData s = ys @ n # zs" and n: "tick n = t" "pitch n = p"
    and sp: "splice1 (findIndex ?P (songData s)) (songData s) = ys @ zs" by blast
  have s1: "songData (toggle t p i s) = ys @ zs" using True sp by (simp add: songData_toggle)
  have u: "uniqueCells (ys @ n # zs)" using assms xs by simp
  have free: "\<not> occupied t p (ys @ zs)"
    and flt: "filter (\<lambda>m. \<not> ?P m) (songData s) = ys @ zs"
    using uniqueCells_filter_cell[OF u n] xs by simp_all
  have s2: "songData (toggle t p i (toggle t p i s)) = ys @ zs @ [?new]"
    using free by (simp add: songData_toggle[of t p i "toggle t p i s"] s1)
  have "uniqueCells (ys @ zs @ [?new])"
    using u free by (auto simp: uniqueCells_def occupied_def filter_empty_conv)
  moreover have "occupied t p (ys @ zs @ [?new])" by (simp add: occupied_def)
  ultimately show ?thesis using True s2 flt by simp
qed

text \<open>
  The theorem at a store the editor reaches by one click: the cell \<open>(3, 7)\<close> holds a harp
  note; after two toggles with the bass selected it holds a bass note.
\<close>

theorem toggle_twice_witness:
  "uniqueCells (songData (toggle 3 7 0 init))
   \<and> occupied 3 7 (songData (toggle 3 7 0 init))
   \<and> songData (toggle 3 7 1 (toggle 3 7 1 (toggle 3 7 0 init))) = [\<lparr>tick = 3, pitch = 7, inst = 1\<rparr>]"
  using toggle_twice[of "toggle 3 7 0 init" 3 7 1]
  by (simp add: songData_toggle init_def occupied_def uniqueCells_def)

text \<open>
  The claim as the specification words it fails there: the store holds one note at
  \<open>(3, 7)\<close>, and after two toggles of that cell the store holds a note at \<open>(3, 7)\<close>.
\<close>

theorem toggle_twice_counterexample:
  "songData (toggle 3 7 0 init) = [\<lparr>tick = 3, pitch = 7, inst = 0\<rparr>]
   \<and> occupied 3 7 (songData (toggle 3 7 0 (toggle 3 7 0 (toggle 3 7 0 init))))"
  by (simp add: toggle_def toggleNote_def selectInstrument_def init_def occupied_def
      splice1_def Let_def)

text \<open>Every store the editor reaches from the empty one has at most one note per cell.\<close>

lemma uniqueCells_toggleNote:
  assumes "uniqueCells (songData s)"
  shows "uniqueCells (songData (toggleNote t p s))"
proof (cases "occupied t p (songData s)")
  case False
  then show ?thesis using assms
    by (auto simp: songData_toggleNote uniqueCells_def occupied_def filter_empty_conv)
next
  case True
  then have "filter (\<lambda>n. tick n = t \<and> pitch n = p) (songData s) \<noteq> []"
    by (simp add: occupied_def)
  from first_match_split[OF this] obtain ys n zs where
    xs: "songData s = ys @ n # zs"
    and sp: "splice1 (findIndex (\<lambda>n. tick n = t \<and> pitch n = p) (songData s)) (songData s) = ys @ zs"
    by blast
  then show ?thesis using assms True by (auto simp: songData_toggleNote uniqueCells_def)
qed

section \<open>The transport\<close>

subsection \<open>Scheduling, variant D\<close>

lemma fold_playPreview:
  "fold (\<lambda>n. playPreview (inst n) (pitch n)) ns s =
     s\<lparr>effects := effects s @ map (\<lambda>n. Preview (inst n) (pitch n)) ns\<rparr>"
  by (induction ns arbitrary: s) (simp_all add: playPreview_def)

lemma advance_below:
  assumes "currentTick s < totalTicks CONFIG"
  shows "advance s = s\<lparr>effects := effects s
            @ map (\<lambda>n. Preview (inst n) (pitch n)) (filter (\<lambda>n. tick n = currentTick s) (songData s))
            @ [UIUpdate (currentTick s)],
          currentTick := currentTick s + 1\<rparr>"
  using assms by (simp add: advance_def Let_def fold_playPreview updateUI_def)

lemma advance_end:
  assumes "totalTicks CONFIG \<le> currentTick s"
  shows "advance s = stop s"
  using assms by (simp add: advance_def)

lemma stop_one_advancer:
  assumes "one_advancer s"
  shows "stop s = s\<lparr>isPlaying := False, timers := [], currentTick := 0,
                    effects := effects s @ [UIUpdate 0]\<rparr>"
  using assms
  by (cases "isPlaying s")
     (auto simp: one_advancer_def stop_def pause_def updateUI_def clearInterval_def
        truthy_handle_def Let_def split: option.splits)

lemma pause_one_advancer:
  assumes "one_advancer s"
  shows "pause s = s\<lparr>isPlaying := False, timers := []\<rparr>"
  using assms
  by (cases "isPlaying s")
     (auto simp: one_advancer_def pause_def clearInterval_def truthy_handle_def Let_def
        split: option.splits)

lemma play_stopped:
  assumes "\<not> isPlaying s"
  shows "play sp s = s\<lparr>isPlaying := True,
            timers := timers s @ [(nextTimer s,
               js_div (js_div (Fin 1000) (Fin (real_of_int (ticksPerSecond CONFIG)))) (js_or sp (Fin 1)))],
            nextTimer := nextTimer s + 1, playbackInterval := Some (nextTimer s)\<rparr>"
  using assms by (simp add: play_def setInterval_def Let_def)

lemma play_playing: "isPlaying s \<Longrightarrow> play sp s = s"
  by (simp add: play_def)

lemma one_advancer_play: "one_advancer s \<Longrightarrow> one_advancer (play sp s)"
  by (cases "isPlaying s") (auto simp: play_playing play_stopped one_advancer_def)

lemma one_advancer_pause: "one_advancer s \<Longrightarrow> one_advancer (pause s)"
  by (simp add: pause_one_advancer) (simp add: one_advancer_def)

lemma one_advancer_stop: "one_advancer s \<Longrightarrow> one_advancer (stop s)"
  by (simp add: stop_one_advancer) (simp add: one_advancer_def)

lemma one_advancer_advance:
  assumes "one_advancer s"
  shows "one_advancer (advance s)"
proof (cases "currentTick s < totalTicks CONFIG")
  case True
  with assms show ?thesis
    by (auto simp: advance_below one_advancer_def split: option.splits if_splits)
next
  case False
  with assms show ?thesis by (simp add: advance_end one_advancer_stop)
qed

lemma one_advancer_seek: "one_advancer s \<Longrightarrow> one_advancer (seek v sp s)"
  by (cases "isPlaying s")
     (auto simp: seek_def Let_def pause_one_advancer updateUI_def play_stopped play_playing
        one_advancer_def split: option.splits if_splits)

lemma one_advancer_toggleNote: "one_advancer s \<Longrightarrow> one_advancer (toggleNote t p s)"
  by (auto simp: toggleNote_def Let_def one_advancer_def split: option.splits if_splits)

lemma one_advancer_generateFile:
  "one_advancer s \<Longrightarrow> one_advancer (fst (generateFile r txt s))"
  by (auto simp: generateFile_def Let_def one_advancer_def split: option.splits if_splits)

lemma one_advancer_selectInstrument:
  "one_advancer s \<Longrightarrow> one_advancer (selectInstrument i s)"
  by (auto simp: selectInstrument_def one_advancer_def split: option.splits if_splits)

lemma one_advancer_step: "one_advancer s \<Longrightarrow> one_advancer (step s e)"
  by (cases e)
     (simp_all add: one_advancer_play one_advancer_pause one_advancer_stop one_advancer_seek
        one_advancer_advance one_advancer_toggleNote one_advancer_generateFile
        one_advancer_selectInstrument)

lemma one_advancer_foldl: "one_advancer s \<Longrightarrow> one_advancer (foldl step s evs)"
  by (induction evs arbitrary: s) (simp_all add: one_advancer_step)

lemma one_advancer_run: "one_advancer (run evs)"
  unfolding run_def by (rule one_advancer_foldl) (simp add: one_advancer_def init_def)

subsection \<open>The range of the tick counter, variant D\<close>

lemma totalTicks_CONFIG: "totalTicks CONFIG = 400"
  by (simp add: CONFIG_def)

lemma currentTick_play: "currentTick (play sp s) = currentTick s"
  by (simp add: play_def setInterval_def Let_def)

lemma currentTick_pause: "currentTick (pause s) = currentTick s"
  by (simp add: pause_def clearInterval_def Let_def split: option.splits)

lemma currentTick_stop: "currentTick (stop s) = 0"
  by (simp add: stop_def updateUI_def)

lemma currentTick_advance:
  "currentTick (advance s) = (if currentTick s < totalTicks CONFIG then currentTick s + 1 else 0)"
  by (simp add: advance_below advance_end currentTick_stop)

lemma currentTick_seek:
  "currentTick (seek v sp s) = \<lfloor>(v / 100) * real_of_int (totalTicks CONFIG)\<rfloor>"
  by (simp add: seek_def Let_def currentTick_play updateUI_def)

lemma currentTick_toggleNote: "currentTick (toggleNote t p s) = currentTick s"
  by (simp add: toggleNote_def Let_def)

lemma currentTick_generateFile: "currentTick (fst (generateFile r txt s)) = currentTick s"
  by (simp add: generateFile_def Let_def)

lemma seek_floor_bounds:
  assumes "0 \<le> v" "v \<le> 100" "0 \<le> T"
  shows "0 \<le> \<lfloor>(v / 100) * real_of_int T\<rfloor>" and "\<lfloor>(v / 100) * real_of_int T\<rfloor> \<le> T"
proof -
  have "0 \<le> (v / 100) * real_of_int T" using assms by simp
  then show "0 \<le> \<lfloor>(v / 100) * real_of_int T\<rfloor>" by simp
  have "v / 100 \<le> 1" using assms by simp
  then have "(v / 100) * real_of_int T \<le> 1 * real_of_int T"
    using assms(3) by (intro mult_right_mono) simp_all
  then show "\<lfloor>(v / 100) * real_of_int T\<rfloor> \<le> T" by (simp add: floor_le_iff)
qed

lemma tick_bounds_step:
  assumes "0 \<le> currentTick s" "currentTick s \<le> totalTicks CONFIG" "in_range e"
  shows "0 \<le> currentTick (step s e) \<and> currentTick (step s e) \<le> totalTicks CONFIG"
proof (cases e)
  case (Seek v sp)
  then show ?thesis
    using assms(3) seek_floor_bounds[of v "totalTicks CONFIG"]
    by (simp add: currentTick_seek totalTicks_CONFIG)
qed (use assms in \<open>auto simp: currentTick_play currentTick_pause currentTick_stop
      currentTick_advance currentTick_toggleNote currentTick_generateFile selectInstrument_def
      totalTicks_CONFIG\<close>)

lemma tick_bounds_foldl:
  assumes "0 \<le> currentTick s" "currentTick s \<le> totalTicks CONFIG" "list_all in_range evs"
  shows "0 \<le> currentTick (foldl step s evs) \<and> currentTick (foldl step s evs) \<le> totalTicks CONFIG"
  using assms
proof (induction evs arbitrary: s)
  case Nil
  then show ?case by simp
next
  case (Cons e evs)
  from Cons.prems have "0 \<le> currentTick (step s e) \<and> currentTick (step s e) \<le> totalTicks CONFIG"
    by (intro tick_bounds_step) simp_all
  with Cons show ?case by simp
qed

subsection \<open>Playing to the end, variant D\<close>

lemma scheduled_single: "map fst (timers s) = [h] \<Longrightarrow> scheduled k s = (k = h)"
  by (cases "timers s") (auto simp: scheduled_def)

lemma fires_playing:
  assumes "one_advancer s" "isPlaying s" "playbackInterval s = Some h"
    and "currentTick s + int n \<le> totalTicks CONFIG"
  shows "isPlaying (fires h n s) \<and> playbackInterval (fires h n s) = Some h
       \<and> one_advancer (fires h n s)
       \<and> currentTick (fires h n s) = currentTick s + int n
       \<and> uiUpdates (fires h n s) = uiUpdates s @ map (\<lambda>k. currentTick s + int k) [0..<n]"
  using assms(4)
proof (induction n)
  case 0
  then show ?case using assms by simp
next
  case (Suc n)
  let ?s = "fires h n s"
  from Suc have ih: "isPlaying ?s" "playbackInterval ?s = Some h" "one_advancer ?s"
    "currentTick ?s = currentTick s + int n"
    "uiUpdates ?s = uiUpdates s @ map (\<lambda>k. currentTick s + int k) [0..<n]" by simp_all
  from ih(1-3) have "map fst (timers ?s) = [h]" by (simp add: one_advancer_def)
  then have sch: "scheduled h ?s" by (simp add: scheduled_single)
  have below: "currentTick ?s < totalTicks CONFIG" using ih(4) Suc.prems by simp
  have eq: "fires h (Suc n) s = advance ?s" using sch by simp
  show ?case unfolding eq
    using ih one_advancer_advance[OF ih(3)]
    by (simp add: advance_below[OF below] uiUpdates_def)
qed

lemma fires_stopped:
  assumes "timers s = []"
  shows "fires h n s = s"
  by (induction n) (simp_all add: assms scheduled_def)

lemma fires_add: "fires h (m + n) s = fires h n (fires h m s)"
  by (induction n) simp_all

lemma play_to_end_D:
  assumes "one_advancer s" "\<not> isPlaying s" "currentTick s = 0"
  shows "isPlaying (fires (nextTimer s) (nat (totalTicks CONFIG)) (play sp s))"
    and "currentTick (fires (nextTimer s) (nat (totalTicks CONFIG)) (play sp s)) = totalTicks CONFIG"
    and "uiUpdates (fires (nextTimer s) (nat (totalTicks CONFIG)) (play sp s)) =
           uiUpdates s @ map int [0..<nat (totalTicks CONFIG)]"
    and "\<not> isPlaying (fires (nextTimer s) (Suc (nat (totalTicks CONFIG))) (play sp s))"
    and "currentTick (fires (nextTimer s) (Suc (nat (totalTicks CONFIG))) (play sp s)) = 0"
    and "timers (fires (nextTimer s) (Suc (nat (totalTicks CONFIG))) (play sp s)) = []"
    and "uiUpdates (fires (nextTimer s) (Suc (nat (totalTicks CONFIG))) (play sp s)) =
           uiUpdates s @ map int [0..<nat (totalTicks CONFIG)] @ [0]"
    and "currentTick (fires (nextTimer s) n (play sp s)) \<le> totalTicks CONFIG"
    and "fires (nextTimer s) (Suc (nat (totalTicks CONFIG)) + n) (play sp s) =
           fires (nextTimer s) (Suc (nat (totalTicks CONFIG))) (play sp s)"
proof -
  let ?h = "nextTimer s" and ?N = "nat (totalTicks CONFIG)" and ?s0 = "play sp s"
  have T: "0 \<le> totalTicks CONFIG" by (simp add: totalTicks_CONFIG)
  have s0: "one_advancer ?s0" "isPlaying ?s0" "playbackInterval ?s0 = Some ?h"
    "currentTick ?s0 = 0" "uiUpdates ?s0 = uiUpdates s"
    using assms one_advancer_play[OF assms(1), of sp]
    by (simp_all add: play_stopped uiUpdates_def)
  have run: "isPlaying (fires ?h n ?s0) \<and> playbackInterval (fires ?h n ?s0) = Some ?h
       \<and> one_advancer (fires ?h n ?s0)
       \<and> currentTick (fires ?h n ?s0) = int n
       \<and> uiUpdates (fires ?h n ?s0) = uiUpdates s @ map int [0..<n]"
    if "int n \<le> totalTicks CONFIG" for n
    using fires_playing[OF s0(1-3), of n] that s0(4,5) by simp
  let ?e = "fires ?h ?N ?s0"
  from run[of ?N] T have e: "isPlaying ?e" "playbackInterval ?e = Some ?h" "one_advancer ?e"
    "currentTick ?e = totalTicks CONFIG" "uiUpdates ?e = uiUpdates s @ map int [0..<?N]"
    by simp_all
  show "isPlaying ?e" "currentTick ?e = totalTicks CONFIG"
    "uiUpdates ?e = uiUpdates s @ map int [0..<?N]" by (fact e)+
  from e(1-3) have "map fst (timers ?e) = [?h]" by (simp add: one_advancer_def)
  then have "scheduled ?h ?e" by (simp add: scheduled_single)
  then have last: "fires ?h (Suc ?N) ?s0 = stop ?e"
    using e(4) by (simp add: advance_end)
  let ?f = "fires ?h (Suc ?N) ?s0"
  show f: "\<not> isPlaying ?f" "currentTick ?f = 0" "timers ?f = []"
    "uiUpdates ?f = uiUpdates s @ map int [0..<?N] @ [0]"
    unfolding last by (simp_all add: stop_one_advancer[OF e(3)] uiUpdates_def e(5)[unfolded uiUpdates_def])
  have after: "fires ?h (Suc ?N + k) ?s0 = ?f" for k
    unfolding fires_add by (rule fires_stopped) (rule f(3))
  show "fires ?h (Suc ?N + n) ?s0 = ?f" by (rule after)
  show "currentTick (fires ?h n ?s0) \<le> totalTicks CONFIG"
  proof (cases "int n \<le> totalTicks CONFIG")
    case True
    with run[of n] show ?thesis by simp
  next
    case False
    then have "Suc ?N \<le> n" using T by linarith
    then have "n = Suc ?N + (n - Suc ?N)" by simp
    then have "fires ?h n ?s0 = ?f" using after[of "n - Suc ?N"] by simp
    then show ?thesis using f(2) T by simp
  qed
qed

subsection \<open>The transport of variant A\<close>

lemma advance_A_below:
  assumes "currentTick s < TOTAL_TICKS"
  shows "advance_A repeat s = s\<lparr>effects := effects s
            @ map (\<lambda>n. Preview (inst n) (pitch n)) (filter (\<lambda>n. tick n = currentTick s) (songData s))
            @ [UIUpdate (currentTick s)],
          currentTick := currentTick s + 1\<rparr>"
  using assms by (simp add: advance_A_def Let_def fold_playPreview updateTimeDisplay_A_def)

lemma advance_A_end:
  assumes "TOTAL_TICKS \<le> currentTick s"
  shows "advance_A False s = stop_A s"
  using assms by (simp add: advance_A_def)

lemma advance_A_wrap:
  assumes "TOTAL_TICKS \<le> currentTick s"
  shows "advance_A True s = s\<lparr>effects := effects s
            @ map (\<lambda>n. Preview (inst n) (pitch n)) (filter (\<lambda>n. tick n = 0) (songData s))
            @ [UIUpdate 0],
          currentTick := 1\<rparr>"
  using assms by (simp add: advance_A_def Let_def fold_playPreview updateTimeDisplay_A_def)

lemma pause_A_one_advancer:
  assumes "one_advancer s"
  shows "pause_A s = s\<lparr>isPlaying := False, timers := []\<rparr>"
  using assms
  by (cases "isPlaying s")
     (auto simp: one_advancer_def pause_A_def clearInterval_def split: option.splits)

lemma stop_A_one_advancer:
  assumes "one_advancer s"
  shows "stop_A s = s\<lparr>isPlaying := False, timers := [], currentTick := 0,
                      effects := effects s @ [UIUpdate 0]\<rparr>"
  by (simp add: stop_A_def pause_A_one_advancer[OF assms] updateTimeDisplay_A_def)

lemma play_A_stopped:
  assumes "\<not> isPlaying s"
  shows "play_A s = s\<lparr>isPlaying := True,
            timers := timers s @ [(nextTimer s,
               js_div (js_div (Fin 1000) (Fin (real_of_int TICKS_PER_SECOND))) (speed s))],
            nextTimer := nextTimer s + 1, playbackInterval := Some (nextTimer s)\<rparr>"
  using assms by (simp add: play_A_def setInterval_def Let_def)

lemma play_A_playing: "isPlaying s \<Longrightarrow> play_A s = s"
  by (simp add: play_A_def)

lemma one_advancer_play_A: "one_advancer s \<Longrightarrow> one_advancer (play_A s)"
  by (cases "isPlaying s") (auto simp: play_A_playing play_A_stopped one_advancer_def)

lemma one_advancer_pause_A: "one_advancer s \<Longrightarrow> one_advancer (pause_A s)"
  by (simp add: pause_A_one_advancer) (simp add: one_advancer_def)

lemma one_advancer_stop_A: "one_advancer s \<Longrightarrow> one_advancer (stop_A s)"
  by (simp add: stop_A_one_advancer) (simp add: one_advancer_def)

lemma one_advancer_advance_A:
  assumes "one_advancer s"
  shows "one_advancer (advance_A repeat s)"
proof (cases "currentTick s < TOTAL_TICKS")
  case True
  with assms show ?thesis
    by (auto simp: advance_A_below one_advancer_def split: option.splits if_splits)
next
  case False
  show ?thesis
  proof (cases repeat)
    case True
    with False assms show ?thesis
      by (auto simp: advance_A_wrap one_advancer_def split: option.splits if_splits)
  next
    case no: False
    with False assms show ?thesis by (simp add: advance_A_end one_advancer_stop_A)
  qed
qed

lemma one_advancer_speedChange_A:
  assumes "one_advancer s"
  shows "one_advancer (speedChange_A sp s)"
proof -
  have 1: "one_advancer (s\<lparr>speed := sp\<rparr>)"
    using assms by (auto simp: one_advancer_def split: option.splits if_splits)
  show ?thesis
    by (simp add: speedChange_A_def Let_def one_advancer_play_A one_advancer_pause_A 1)
qed

lemma one_advancer_generateBedrockScript:
  "one_advancer s \<Longrightarrow> one_advancer (fst (generateBedrockScript r s))"
  by (auto simp: generateBedrockScript_def Let_def one_advancer_def split: option.splits if_splits)

lemma currentTick_generateBedrockScript:
  "currentTick (fst (generateBedrockScript r s)) = currentTick s"
  by (simp add: generateBedrockScript_def Let_def)

lemma one_advancer_step_A:
  assumes "one_advancer s"
  shows "one_advancer (step_A s e)"
proof (cases e)
  case (Seek_A v)
  with assms show ?thesis
    by (auto simp: seek_A_def updateTimeDisplay_A_def one_advancer_def split: option.splits if_splits)
next
  case (Click_A t p)
  with assms show ?thesis
    by (auto simp: toggleNote_def Let_def one_advancer_def split: option.splits if_splits)
next
  case (Select_A i)
  with assms show ?thesis
    by (auto simp: selectInstrument_def one_advancer_def split: option.splits if_splits)
qed (use assms in \<open>simp_all add: one_advancer_play_A one_advancer_pause_A one_advancer_stop_A
      one_advancer_advance_A one_advancer_speedChange_A one_advancer_generateBedrockScript\<close>)

lemma one_advancer_foldl_A: "one_advancer s \<Longrightarrow> one_advancer (foldl step_A s evs)"
  by (induction evs arbitrary: s) (simp_all add: one_advancer_step_A)

lemma one_advancer_run_A: "one_advancer (run_A evs)"
  unfolding run_A_def by (rule one_advancer_foldl_A) (simp add: one_advancer_def init_A_def)

lemma currentTick_play_A: "currentTick (play_A s) = currentTick s"
  by (simp add: play_A_def setInterval_def Let_def)

lemma currentTick_pause_A: "currentTick (pause_A s) = currentTick s"
  by (simp add: pause_A_def clearInterval_def split: option.splits)

lemma currentTick_stop_A: "currentTick (stop_A s) = 0"
  by (simp add: stop_A_def updateTimeDisplay_A_def)

lemma currentTick_advance_A:
  "currentTick (advance_A repeat s) =
     (if currentTick s < TOTAL_TICKS then currentTick s + 1 else if repeat then 1 else 0)"
  by (cases repeat) (simp_all add: advance_A_below advance_A_end advance_A_wrap currentTick_stop_A)

lemma tick_bounds_step_A:
  assumes "0 \<le> currentTick s" "currentTick s \<le> TOTAL_TICKS" "in_range_A e"
  shows "0 \<le> currentTick (step_A s e) \<and> currentTick (step_A s e) \<le> TOTAL_TICKS"
proof (cases e)
  case (Seek_A v)
  then show ?thesis
    using assms(3) seek_floor_bounds[of v TOTAL_TICKS]
    by (simp add: seek_A_def updateTimeDisplay_A_def TOTAL_TICKS_def)
next
  case (Speed_A sp)
  then show ?thesis using assms
    by (simp add: speedChange_A_def Let_def currentTick_play_A currentTick_pause_A)
qed (use assms in \<open>auto simp: currentTick_play_A currentTick_pause_A currentTick_stop_A
      currentTick_advance_A currentTick_toggleNote currentTick_generateBedrockScript
      selectInstrument_def TOTAL_TICKS_def\<close>)

lemma tick_bounds_foldl_A:
  assumes "0 \<le> currentTick s" "currentTick s \<le> TOTAL_TICKS" "list_all in_range_A evs"
  shows "0 \<le> currentTick (foldl step_A s evs) \<and> currentTick (foldl step_A s evs) \<le> TOTAL_TICKS"
  using assms
proof (induction evs arbitrary: s)
  case Nil
  then show ?case by simp
next
  case (Cons e evs)
  from Cons.prems have "0 \<le> currentTick (step_A s e) \<and> currentTick (step_A s e) \<le> TOTAL_TICKS"
    by (intro tick_bounds_step_A) simp_all
  with Cons show ?case by simp
qed

lemma fires_A_playing:
  assumes "one_advancer s" "isPlaying s" "playbackInterval s = Some h"
    and "currentTick s + int n \<le> TOTAL_TICKS"
  shows "isPlaying (fires_A h repeat n s) \<and> playbackInterval (fires_A h repeat n s) = Some h
       \<and> one_advancer (fires_A h repeat n s)
       \<and> currentTick (fires_A h repeat n s) = currentTick s + int n
       \<and> uiUpdates (fires_A h repeat n s) = uiUpdates s @ map (\<lambda>k. currentTick s + int k) [0..<n]"
  using assms(4)
proof (induction n)
  case 0
  then show ?case using assms by simp
next
  case (Suc n)
  let ?s = "fires_A h repeat n s"
  from Suc have ih: "isPlaying ?s" "playbackInterval ?s = Some h" "one_advancer ?s"
    "currentTick ?s = currentTick s + int n"
    "uiUpdates ?s = uiUpdates s @ map (\<lambda>k. currentTick s + int k) [0..<n]" by simp_all
  from ih(1-3) have "map fst (timers ?s) = [h]" by (simp add: one_advancer_def)
  then have sch: "scheduled h ?s" by (simp add: scheduled_single)
  have below: "currentTick ?s < TOTAL_TICKS" using ih(4) Suc.prems by simp
  have eq: "fires_A h repeat (Suc n) s = advance_A repeat ?s" using sch by simp
  show ?case unfolding eq
    using ih one_advancer_advance_A[OF ih(3)]
    by (simp add: advance_A_below[OF below] uiUpdates_def)
qed

lemma fires_A_stopped:
  assumes "timers s = []"
  shows "fires_A h repeat n s = s"
  by (induction n) (simp_all add: assms scheduled_def)

lemma fires_A_add: "fires_A h repeat (m + n) s = fires_A h repeat n (fires_A h repeat m s)"
  by (induction n) simp_all

lemma play_to_end_A:
  assumes "one_advancer s" "\<not> isPlaying s" "currentTick s = 0"
  shows "isPlaying (fires_A (nextTimer s) False (nat TOTAL_TICKS) (play_A s))"
    and "currentTick (fires_A (nextTimer s) False (nat TOTAL_TICKS) (play_A s)) = TOTAL_TICKS"
    and "uiUpdates (fires_A (nextTimer s) False (nat TOTAL_TICKS) (play_A s)) =
           uiUpdates s @ map int [0..<nat TOTAL_TICKS]"
    and "\<not> isPlaying (fires_A (nextTimer s) False (Suc (nat TOTAL_TICKS)) (play_A s))"
    and "currentTick (fires_A (nextTimer s) False (Suc (nat TOTAL_TICKS)) (play_A s)) = 0"
    and "timers (fires_A (nextTimer s) False (Suc (nat TOTAL_TICKS)) (play_A s)) = []"
    and "uiUpdates (fires_A (nextTimer s) False (Suc (nat TOTAL_TICKS)) (play_A s)) =
           uiUpdates s @ map int [0..<nat TOTAL_TICKS] @ [0]"
    and "currentTick (fires_A (nextTimer s) False n (play_A s)) \<le> TOTAL_TICKS"
    and "fires_A (nextTimer s) False (Suc (nat TOTAL_TICKS) + n) (play_A s) =
           fires_A (nextTimer s) False (Suc (nat TOTAL_TICKS)) (play_A s)"
proof -
  let ?h = "nextTimer s" and ?N = "nat TOTAL_TICKS" and ?s0 = "play_A s"
  have T: "0 \<le> TOTAL_TICKS" by (simp add: TOTAL_TICKS_def)
  have s0: "one_advancer ?s0" "isPlaying ?s0" "playbackInterval ?s0 = Some ?h"
    "currentTick ?s0 = 0" "uiUpdates ?s0 = uiUpdates s"
    using assms one_advancer_play_A[OF assms(1)]
    by (simp_all add: play_A_stopped uiUpdates_def)
  have run: "isPlaying (fires_A ?h False n ?s0) \<and> playbackInterval (fires_A ?h False n ?s0) = Some ?h
       \<and> one_advancer (fires_A ?h False n ?s0)
       \<and> currentTick (fires_A ?h False n ?s0) = int n
       \<and> uiUpdates (fires_A ?h False n ?s0) = uiUpdates s @ map int [0..<n]"
    if "int n \<le> TOTAL_TICKS" for n
    using fires_A_playing[OF s0(1-3), of n False] that s0(4,5) by simp
  let ?e = "fires_A ?h False ?N ?s0"
  from run[of ?N] T have e: "isPlaying ?e" "playbackInterval ?e = Some ?h" "one_advancer ?e"
    "currentTick ?e = TOTAL_TICKS" "uiUpdates ?e = uiUpdates s @ map int [0..<?N]"
    by simp_all
  show "isPlaying ?e" "currentTick ?e = TOTAL_TICKS"
    "uiUpdates ?e = uiUpdates s @ map int [0..<?N]" by (fact e)+
  from e(1-3) have "map fst (timers ?e) = [?h]" by (simp add: one_advancer_def)
  then have "scheduled ?h ?e" by (simp add: scheduled_single)
  then have last: "fires_A ?h False (Suc ?N) ?s0 = stop_A ?e"
    using e(4) by (simp add: advance_A_end)
  let ?f = "fires_A ?h False (Suc ?N) ?s0"
  show f: "\<not> isPlaying ?f" "currentTick ?f = 0" "timers ?f = []"
    "uiUpdates ?f = uiUpdates s @ map int [0..<?N] @ [0]"
    unfolding last
    by (simp_all add: stop_A_one_advancer[OF e(3)] uiUpdates_def e(5)[unfolded uiUpdates_def])
  have after: "fires_A ?h False (Suc ?N + k) ?s0 = ?f" for k
    unfolding fires_A_add by (rule fires_A_stopped) (rule f(3))
  show "fires_A ?h False (Suc ?N + n) ?s0 = ?f" by (rule after)
  show "currentTick (fires_A ?h False n ?s0) \<le> TOTAL_TICKS"
  proof (cases "int n \<le> TOTAL_TICKS")
    case True
    with run[of n] show ?thesis by simp
  next
    case False
    then have "Suc ?N \<le> n" using T by linarith
    then have "n = Suc ?N + (n - Suc ?N)" by simp
    then have "fires_A ?h False n ?s0 = ?f" using after[of "n - Suc ?N"] by simp
    then show ?thesis using f(2) T by simp
  qed
qed

subsection \<open>Playing to the end\<close>

text \<open>
  Claim C3, as amended. Start from a transport at rest with \<^verbatim>\<open>currentTick\<close> zero and call
  \<^verbatim>\<open>play()\<close>. After exactly \<^verbatim>\<open>totalTicks\<close> firings of the advancer the transport is still
  playing and \<^verbatim>\<open>currentTick\<close> equals \<^verbatim>\<open>totalTicks\<close>; exactly \<^verbatim>\<open>totalTicks\<close> UI updates were
  emitted, for the ticks \<open>0\<close> to \<^verbatim>\<open>totalTicks - 1\<close> and none for \<^verbatim>\<open>totalTicks\<close>. The next
  firing advances nothing: it stops the transport, resets \<^verbatim>\<open>currentTick\<close> to zero, leaves
  no advancer scheduled and emits one more UI update, for tick zero. No firing ever
  takes \<^verbatim>\<open>currentTick\<close> past \<^verbatim>\<open>totalTicks\<close>, and after the stop nothing fires any more. This
  holds for variant D and, with the repeat checkbox off, for variant A.
\<close>

theorem playthrough:
  assumes "stopped_at_start s" and "stopped_at_start a"
  shows "(isPlaying (played sp (nat (totalTicks CONFIG)) s)
          \<and> currentTick (played sp (nat (totalTicks CONFIG)) s) = totalTicks CONFIG
          \<and> uiUpdates (played sp (nat (totalTicks CONFIG)) s) =
              uiUpdates s @ map int [0..<nat (totalTicks CONFIG)]
          \<and> \<not> isPlaying (played sp (Suc (nat (totalTicks CONFIG))) s)
          \<and> currentTick (played sp (Suc (nat (totalTicks CONFIG))) s) = 0
          \<and> timers (played sp (Suc (nat (totalTicks CONFIG))) s) = []
          \<and> uiUpdates (played sp (Suc (nat (totalTicks CONFIG))) s) =
              uiUpdates s @ map int [0..<nat (totalTicks CONFIG)] @ [0]
          \<and> (\<forall>n. currentTick (played sp n s) \<le> totalTicks CONFIG)
          \<and> (\<forall>n. played sp (Suc (nat (totalTicks CONFIG)) + n) s =
                   played sp (Suc (nat (totalTicks CONFIG))) s))
       \<and> (isPlaying (played_A (nat TOTAL_TICKS) a)
          \<and> currentTick (played_A (nat TOTAL_TICKS) a) = TOTAL_TICKS
          \<and> uiUpdates (played_A (nat TOTAL_TICKS) a) = uiUpdates a @ map int [0..<nat TOTAL_TICKS]
          \<and> \<not> isPlaying (played_A (Suc (nat TOTAL_TICKS)) a)
          \<and> currentTick (played_A (Suc (nat TOTAL_TICKS)) a) = 0
          \<and> timers (played_A (Suc (nat TOTAL_TICKS)) a) = []
          \<and> uiUpdates (played_A (Suc (nat TOTAL_TICKS)) a) =
              uiUpdates a @ map int [0..<nat TOTAL_TICKS] @ [0]
          \<and> (\<forall>n. currentTick (played_A n a) \<le> TOTAL_TICKS)
          \<and> (\<forall>n. played_A (Suc (nat TOTAL_TICKS) + n) a = played_A (Suc (nat TOTAL_TICKS)) a))"
proof -
  from assms(1) have s: "one_advancer s" "\<not> isPlaying s" "currentTick s = 0"
    by (simp_all add: stopped_at_start_def)
  from assms(2) have a: "one_advancer a" "\<not> isPlaying a" "currentTick a = 0"
    by (simp_all add: stopped_at_start_def)
  note D = play_to_end_D[OF s, where sp = sp, folded played_def]
  note A = play_to_end_A[OF a, folded played_A_def]
  show ?thesis
    by (intro conjI allI) (rule D A)+
qed

text \<open>
  The theorem at the initial states: 400 firings in variant D, 200 in variant A, and one
  more to stop.
\<close>

theorem playthrough_witness:
  "stopped_at_start init \<and> stopped_at_start init_A
   \<and> isPlaying (played (Fin 1) 400 init) \<and> currentTick (played (Fin 1) 400 init) = 400
   \<and> length (uiUpdates (played (Fin 1) 400 init)) = 400
   \<and> \<not> isPlaying (played (Fin 1) 401 init) \<and> currentTick (played (Fin 1) 401 init) = 0
   \<and> length (uiUpdates (played (Fin 1) 401 init)) = 401
   \<and> isPlaying (played_A 200 init_A) \<and> currentTick (played_A 200 init_A) = 200
   \<and> \<not> isPlaying (played_A 201 init_A) \<and> currentTick (played_A 201 init_A) = 0"
proof -
  have i: "stopped_at_start init" "stopped_at_start init_A"
    by (simp_all add: stopped_at_start_def one_advancer_def init_def init_A_def)
  have u: "uiUpdates init = []" by (simp add: uiUpdates_def init_def)
  from playthrough[OF i, where sp = "Fin 1"] i u show ?thesis
    by (simp add: totalTicks_CONFIG TOTAL_TICKS_def)
qed

text \<open>
  The claim as the specification words it fails: after exactly \<^verbatim>\<open>totalTicks\<close> firings from
  the initial state the transport of variant D is playing at tick 400, not stopped at 0.
\<close>

theorem playthrough_counterexample:
  "totalTicks CONFIG = 400
   \<and> isPlaying (played (Fin 1) 400 init) \<and> currentTick (played (Fin 1) 400 init) = 400"
proof -
  have i: "one_advancer init" "\<not> isPlaying init" "currentTick init = 0"
    by (simp_all add: one_advancer_def init_def)
  from play_to_end_D(1,2)[OF i, where sp = "Fin 1", folded played_def] show ?thesis
    by (simp add: totalTicks_CONFIG)
qed

subsection \<open>The range of the tick counter\<close>

lemma end_of_song_stops:
  assumes "one_advancer s" "isPlaying s" "currentTick s = totalTicks CONFIG"
  shows "\<exists>h. playbackInterval s = Some h \<and> scheduled h s
           \<and> \<not> isPlaying (step s (Fire h)) \<and> currentTick (step s (Fire h)) = 0
           \<and> timers (step s (Fire h)) = []"
proof -
  from assms(1,2) obtain h where h: "playbackInterval s = Some h" "map fst (timers s) = [h]"
    by (auto simp: one_advancer_def split: option.splits)
  then have sch: "scheduled h s" by (simp add: scheduled_single)
  then have "step s (Fire h) = stop s" using assms(3) by (simp add: advance_end)
  with h(1) sch show ?thesis by (simp add: stop_one_advancer[OF assms(1)])
qed

lemma end_of_song_stops_A:
  assumes "one_advancer s" "isPlaying s" "currentTick s = TOTAL_TICKS"
  shows "\<exists>h. playbackInterval s = Some h \<and> scheduled h s
           \<and> \<not> isPlaying (step_A s (Fire_A h False))
           \<and> currentTick (step_A s (Fire_A h False)) = 0
           \<and> timers (step_A s (Fire_A h False)) = []"
proof -
  from assms(1,2) obtain h where h: "playbackInterval s = Some h" "map fst (timers s) = [h]"
    by (auto simp: one_advancer_def split: option.splits)
  then have sch: "scheduled h s" by (simp add: scheduled_single)
  then have "step_A s (Fire_A h False) = stop_A s" using assms(3) by (simp add: advance_A_end)
  with h(1) sch show ?thesis by (simp add: stop_A_one_advancer[OF assms(1)])
qed

text \<open>
  Claim C5, as amended. In every state reached by any sequence of play, pause, stop, seek
  (with the slider in its range), clicks and firings of scheduled advancers,
  \<open>0 \<le> currentTick \<le> totalTicks\<close>. The clock can be running while \<^verbatim>\<open>currentTick\<close> equals
  \<^verbatim>\<open>totalTicks\<close>; the advancer is then scheduled, and its next firing stops the clock and
  resets \<^verbatim>\<open>currentTick\<close> to zero instead of advancing. This holds for variant D and, with
  the repeat checkbox off, for variant A.
\<close>

theorem tick_invariant:
  assumes "list_all in_range evs" and "list_all in_range_A evsA"
  shows "(0 \<le> currentTick (run evs) \<and> currentTick (run evs) \<le> totalTicks CONFIG
          \<and> (currentTick (run evs) = totalTicks CONFIG \<and> isPlaying (run evs) \<longrightarrow>
               (\<exists>h. playbackInterval (run evs) = Some h \<and> scheduled h (run evs)
                  \<and> \<not> isPlaying (step (run evs) (Fire h))
                  \<and> currentTick (step (run evs) (Fire h)) = 0
                  \<and> timers (step (run evs) (Fire h)) = [])))
       \<and> (0 \<le> currentTick (run_A evsA) \<and> currentTick (run_A evsA) \<le> TOTAL_TICKS
          \<and> (currentTick (run_A evsA) = TOTAL_TICKS \<and> isPlaying (run_A evsA) \<longrightarrow>
               (\<exists>h. playbackInterval (run_A evsA) = Some h \<and> scheduled h (run_A evsA)
                  \<and> \<not> isPlaying (step_A (run_A evsA) (Fire_A h False))
                  \<and> currentTick (step_A (run_A evsA) (Fire_A h False)) = 0
                  \<and> timers (step_A (run_A evsA) (Fire_A h False)) = [])))"
proof -
  have "0 \<le> currentTick (run evs) \<and> currentTick (run evs) \<le> totalTicks CONFIG"
    unfolding run_def using assms(1)
    by (intro tick_bounds_foldl) (simp_all add: init_def totalTicks_CONFIG)
  moreover have "0 \<le> currentTick (run_A evsA) \<and> currentTick (run_A evsA) \<le> TOTAL_TICKS"
    unfolding run_A_def using assms(2)
    by (intro tick_bounds_foldl_A) (simp_all add: init_A_def TOTAL_TICKS_def)
  ultimately show ?thesis
    using end_of_song_stops[OF one_advancer_run[of evs]]
      end_of_song_stops_A[OF one_advancer_run_A[of evsA]]
    by blast
qed

text \<open>
  The theorem at two short sessions: play, then drag the slider to its end. Both clocks
  are running at the last tick, and the next firing of their advancer stops them.
\<close>

theorem tick_invariant_witness:
  "list_all in_range [Play (Fin 1), Seek 100 (Fin 1)] \<and> list_all in_range_A [Play_A, Seek_A 100]
   \<and> currentTick (run [Play (Fin 1), Seek 100 (Fin 1)]) \<le> totalTicks CONFIG
   \<and> playbackInterval (run [Play (Fin 1), Seek 100 (Fin 1)]) = Some 2
   \<and> \<not> isPlaying (step (run [Play (Fin 1), Seek 100 (Fin 1)]) (Fire 2))
   \<and> currentTick (step (run [Play (Fin 1), Seek 100 (Fin 1)]) (Fire 2)) = 0
   \<and> currentTick (run_A [Play_A, Seek_A 100]) = TOTAL_TICKS
   \<and> isPlaying (run_A [Play_A, Seek_A 100])
   \<and> \<not> isPlaying (step_A (run_A [Play_A, Seek_A 100]) (Fire_A 1 False))"
  using tick_invariant[of "[Play (Fin 1), Seek 100 (Fin 1)]" "[Play_A, Seek_A 100]"]
  by (simp add: run_def run_A_def init_def init_A_def play_def play_A_def seek_def seek_A_def
      pause_def stop_def stop_A_def pause_A_def advance_def advance_A_def updateUI_def
      updateTimeDisplay_A_def setInterval_def clearInterval_def truthy_handle_def scheduled_def
      CONFIG_def TOTAL_TICKS_def TICKS_PER_SECOND_def js_or_def js_truthy_def Let_def)

text \<open>
  The claim as the specification words it fails in variant D: with the slider dragged to
  100 while playing, \<^verbatim>\<open>currentTick\<close> equals \<^verbatim>\<open>totalTicks\<close> and the clock is running.
\<close>

theorem tick_invariant_counterexample:
  "in_range (Play (Fin 1)) \<and> in_range (Seek 100 (Fin 1))
   \<and> currentTick (run [Play (Fin 1), Seek 100 (Fin 1)]) = totalTicks CONFIG
   \<and> isPlaying (run [Play (Fin 1), Seek 100 (Fin 1)])"
  by (simp add: run_def init_def play_def seek_def pause_def updateUI_def setInterval_def
      clearInterval_def truthy_handle_def CONFIG_def js_or_def js_truthy_def Let_def)

subsection \<open>One advancer at a time\<close>

text \<open>
  In variants A and D, which test \<^verbatim>\<open>isPlaying\<close> first, \<^verbatim>\<open>play()\<close> while playing changes
  nothing, and no session ever has two advancers scheduled.
\<close>

lemma play_noop: "isPlaying s \<Longrightarrow> play sp s = s"
  by (rule play_playing)

lemma play_A_noop: "isPlaying s \<Longrightarrow> play_A s = s"
  by (rule play_A_playing)

lemma at_most_one_advancer: "length (timers (run evs)) \<le> 1"
  using one_advancer_run[of evs]
  by (auto simp: one_advancer_def split: if_splits option.splits dest: arg_cong[where f = length])

lemma at_most_one_advancer_A: "length (timers (run_A evs)) \<le> 1"
  using one_advancer_run_A[of evs]
  by (auto simp: one_advancer_def split: if_splits option.splits dest: arg_cong[where f = length])

lemma play_twice: "play sp' (play sp s) = play sp s"
  by (cases "isPlaying s") (simp_all add: play_playing play_stopped)

text \<open>
  Claim C4 fails in variant B, whose \<^verbatim>\<open>play()\<close> lacks the test: two calls from the initial
  state schedule two advancers, and \<^verbatim>\<open>playbackInterval\<close> only remembers the second. After
  \<^verbatim>\<open>pause()\<close> the first advancer is still scheduled and still advances the tick counter.
\<close>

theorem play_B_twice:
  "timers (play_B (Fin 1) (play_B (Fin 1) init)) = [(1, Fin 50), (2, Fin 50)]
   \<and> playbackInterval (play_B (Fin 1) (play_B (Fin 1) init)) = Some 2
   \<and> play_B (Fin 1) (play_B (Fin 1) init) \<noteq> play_B (Fin 1) init
   \<and> timers (pause_B (play_B (Fin 1) (play_B (Fin 1) init))) = [(1, Fin 50)]
   \<and> \<not> isPlaying (pause_B (play_B (Fin 1) (play_B (Fin 1) init)))
   \<and> currentTick (fire_B 1 (pause_B (play_B (Fin 1) (play_B (Fin 1) init)))) = 1"
proof -
  have 1: "play_B (Fin 1) init = init\<lparr>isPlaying := True, timers := [(1, Fin 50)],
             nextTimer := 2, playbackInterval := Some 1\<rparr>"
    by (simp add: play_B_def init_def setInterval_def CONFIG_def js_or_def js_truthy_def Let_def)
  have 2: "play_B (Fin 1) (play_B (Fin 1) init) = init\<lparr>isPlaying := True,
             timers := [(1, Fin 50), (2, Fin 50)], nextTimer := 3, playbackInterval := Some 2\<rparr>"
    unfolding 1
    by (simp add: play_B_def init_def setInterval_def CONFIG_def js_or_def js_truthy_def Let_def)
  have 3: "pause_B (play_B (Fin 1) (play_B (Fin 1) init)) = init\<lparr>isPlaying := False,
             timers := [(1, Fin 50)], nextTimer := 3, playbackInterval := Some 2\<rparr>"
    unfolding 2 by (simp add: pause_B_def clearInterval_def init_def)
  have 4: "currentTick (fire_B 1 (pause_B (play_B (Fin 1) (play_B (Fin 1) init)))) = 1"
    unfolding 3
    by (simp add: fire_B_def scheduled_def advance_B_def updateTimeDisplay_B_def init_def
        CONFIG_def Let_def)
  have 5: "play_B (Fin 1) (play_B (Fin 1) init) \<noteq> play_B (Fin 1) init"
  proof
    assume "play_B (Fin 1) (play_B (Fin 1) init) = play_B (Fin 1) init"
    then have "nextTimer (play_B (Fin 1) (play_B (Fin 1) init)) = nextTimer (play_B (Fin 1) init)"
      by simp
    then show False unfolding 2 unfolding 1 by simp
  qed
  show ?thesis using 4 5 unfolding 3 unfolding 2 by (simp add: init_def)
qed

subsection \<open>The period\<close>

text \<open>
  The period that \<^verbatim>\<open>play()\<close> of variant D hands to \<^verbatim>\<open>setInterval\<close>: for a speed that parses
  to \<^verbatim>\<open>NaN\<close>, to zero or to a positive number it is positive and finite.
\<close>

lemma period_D:
  "timers (play sp init) =
     [(1, js_div (js_div (Fin 1000) (Fin (real_of_int (ticksPerSecond CONFIG)))) (js_or sp (Fin 1)))]"
  by (simp add: play_def init_def setInterval_def Let_def)

lemma period_normalised:
  "js_div (js_div (Fin 1000) (Fin (real_of_int (ticksPerSecond CONFIG)))) (js_or NaN (Fin 1)) = Fin 50"
  "js_div (js_div (Fin 1000) (Fin (real_of_int (ticksPerSecond CONFIG)))) (js_or (Fin 0) (Fin 1)) = Fin 50"
  "0 < x \<Longrightarrow>
     js_div (js_div (Fin 1000) (Fin (real_of_int (ticksPerSecond CONFIG)))) (js_or (Fin x) (Fin 1))
       = Fin (50 / x) \<and> 0 < 50 / x"
  by (simp_all add: CONFIG_def js_or_def js_truthy_def)

text \<open>
  Claim C8 fails for a negative speed: \<^verbatim>\<open>parseFloat("-2") || 1.0\<close> is \<open>-2\<close>, and the period of
  variant D is \<open>-25\<close>. For an infinite speed it is zero. Variant A has no fallback at all:
  its change listener stores what \<^verbatim>\<open>parseFloat\<close> returns, so a text that is not a number
  gives the period \<^verbatim>\<open>NaN\<close>.
\<close>

theorem negative_speed_period:
  "timers (play (Fin (- 2)) init) = [(1, Fin (- 25))]
   \<and> timers (play PosInf init) = [(1, Fin 0)]
   \<and> timers (play_A (speedChange_A NaN init_A)) = [(1, NaN)]
   \<and> timers (play_A (speedChange_A (Fin (- 2)) init_A)) = [(1, Fin (- 25))]"
  by (simp add: play_def play_A_def speedChange_A_def init_def init_A_def setInterval_def
      CONFIG_def TICKS_PER_SECOND_def js_or_def js_truthy_def Let_def)

section \<open>The export\<close>

lemma insert_by_tick: "insert_by (\<lambda>a b. tick a - tick b) x ys = insort_key tick x ys"
  by (induction ys) simp_all

lemma js_sort_tick: "js_sort (\<lambda>a b. tick a - tick b) xs = sort_key tick xs"
  by (induction xs) (simp_all add: js_sort_def insert_by_tick)

lemma sort_key_fixed: "(sort_key f xs = xs) = sorted (map f xs)"
proof
  assume "sort_key f xs = xs"
  then have "sorted (map f xs) = sorted (map f (sort_key f xs))" by simp
  then show "sorted (map f xs)" by simp
qed (rule sort_key_id_if_sorted)

lemma songData_generateFile:
  "songData (fst (generateFile r txt s)) = sort_key tick (songData s)"
  by (simp add: generateFile_def Let_def js_sort_tick)

lemma data_generateFile:
  "data (snd (generateFile r txt s)) = map triple (sort_key tick (songData s))"
  by (simp add: generateFile_def Let_def js_sort_tick triple_def)

lemma songData_generateApiFile:
  "songData (fst (generateApiFile r txt s)) = sort_key tick (songData s)"
  by (simp add: generateApiFile_def Let_def js_sort_tick)

lemma data_generateApiFile:
  "data (snd (generateApiFile r txt s)) = map triple (sort_key tick (songData s))"
  by (simp add: generateApiFile_def Let_def js_sort_tick triple_def)

lemma sorted_triples:
  "sorted (map fst (map triple (sort_key tick xs)))"
proof -
  have "fst \<circ> triple = tick" by (simp add: fun_eq_iff triple_def)
  then have "map fst (map triple (sort_key tick xs)) = map tick (sort_key tick xs)"
    by simp
  then show ?thesis by (simp only: sorted_sort_key)
qed

lemma stable_triples:
  "filter (\<lambda>n. fst n = t) (map triple (sort_key tick xs)) = map triple (filter (\<lambda>n. tick n = t) xs)"
proof -
  have "filter (\<lambda>n. fst n = t) (map triple (sort_key tick xs))
          = map triple (filter (\<lambda>n. tick n = t) (sort_key tick xs))"
    by (simp add: filter_map comp_def triple_def)
  then show ?thesis by (simp add: sort_key_stable)
qed

lemma floor_random:
  assumes "0 \<le> r" "r < 1" "0 < n"
  shows "k \<le> random_int r n k" and "random_int r n k \<le> k + n - 1"
proof -
  have "0 \<le> r * real_of_int n" using assms by simp
  then have "0 \<le> \<lfloor>r * real_of_int n\<rfloor>" by simp
  then show "k \<le> random_int r n k" by (simp add: random_int_def)
  have "r * real_of_int n < 1 * real_of_int n"
    using assms by (intro mult_strict_right_mono) simp_all
  then have "\<lfloor>r * real_of_int n\<rfloor> < n" by (simp add: floor_less_iff)
  then show "random_int r n k \<le> k + n - 1" by (simp add: random_int_def)
qed

lemma pitchRatio_formula: "2 powr ((real_of_int p - 12) / 12) = pitchRatio p"
  by (simp add: pitchRatio_def centerIndex_def)

lemma twelfth_power: "(2 powr (- 11 / 12) :: real) ^ 12 = 1 / 2048"
proof -
  have "(2 powr (- 11 / 12) :: real) ^ 12 = 2 powr (of_nat 12 * (- 11 / 12))"
    by (rule powr_power) simp
  also have "\<dots> = 2 powr (- 11)" by simp
  also have "\<dots> = 1 / 2048" by (simp add: powr_minus_divide)
  finally show ?thesis .
qed

lemma hundredths_pitch_1: "hundredths (pitchRatio 1) = 53"
proof -
  let ?x = "2 powr (- 11 / 12) :: real"
  have x: "pitchRatio 1 = ?x" by (simp add: pitchRatio_def centerIndex_def)
  have pos: "0 \<le> ?x" by simp
  have lo: "21 / 40 \<le> ?x"
  proof (rule ccontr)
    assume "\<not> 21 / 40 \<le> ?x"
    then have "?x < 21 / 40" by simp
    then have "?x ^ 12 < (21 / 40) ^ 12" using pos by (intro power_strict_mono) simp_all
    then show False unfolding twelfth_power by (simp add: power_divide)
  qed
  have hi: "?x < 107 / 200"
  proof (rule ccontr)
    assume "\<not> ?x < 107 / 200"
    then have "107 / 200 \<le> ?x" by simp
    then have "(107 / 200) ^ 12 \<le> ?x ^ 12" by (intro power_mono) simp_all
    then show False unfolding twelfth_power by (simp add: power_divide)
  qed
  have "53 \<le> ?x * 100 + 1 / 2" "?x * 100 + 1 / 2 < 54" using lo hi by simp_all
  then have "\<lfloor>?x * 100 + 1 / 2\<rfloor> = 53" by (simp add: floor_eq_iff)
  then show ?thesis by (simp add: hundredths_def x)
qed

text \<open>
  The text that \<^verbatim>\<open>generateFile\<close> hands to the browser prints the triples of the exported
  \<^verbatim>\<open>data\<close>, here for the draw \<open>1/2\<close> and a store of two notes.
\<close>

lemma generateFile_text:
  "effects (fst (generateFile r txt s)) =
     effects s @ [Download (''music'' @ show_int (random_int r 900 100) @ ''.js'')
       (content (random_int r 900 100) txt
          (join '','' (map (\<lambda>n. ''['' @ show_int (fst n) @ '','' @ show_int (fst (snd n)) @ '',''
                                @ show_int (snd (snd n)) @ '']'')
                        (data (snd (generateFile r txt s))))))]"
  by (simp add: generateFile_def Let_def comp_def)

lemma generateFile_example_text:
  "effects (fst (generateFile (1 / 2) ''1.0''
      (init\<lparr>songData := [\<lparr>tick = 5, pitch = 0, inst = 1\<rparr>, \<lparr>tick = 0, pitch = 12, inst = 0\<rparr>]\<rparr>)))
   = [Download ''music550.js'' (content 550 ''1.0'' ''[0,0,12],[5,1,0]'')]"
  by (simp add: generateFile_def Let_def js_sort_def random_int_def init_def
      show_int_def show_nat.simps digit_def)

subsection \<open>The data of the exported module\<close>

text \<open>
  Claim C1, as amended. For every store, \<^verbatim>\<open>generateFile\<close> (variant D) and
  \<^verbatim>\<open>generateApiFile\<close> (variant B) export a module whose \<^verbatim>\<open>data\<close> is the list of the triples
  \<^verbatim>\<open>[tick, inst, pitch]\<close> of the stored notes, one per note, sorted by tick ascending, notes
  of one tick in store order. For the store that holds exactly the notes
  \<^verbatim>\<open>{tick:0, pitch:12, inst:0}\<close> and \<^verbatim>\<open>{tick:5, pitch:0, inst:1}\<close>, in either order, and the
  speed text \<^verbatim>\<open>1.0\<close>, the data of both modules is \<^verbatim>\<open>[[0,0,12],[5,1,0]]\<close> and their query at
  tick 0 returns one entry, with the sound of instrument 0, \<^verbatim>\<open>note.harp\<close>, and the pitch
  ratio 1. The script that
  \<^verbatim>\<open>generateBedrockScript\<close> (variant A) exports lists the notes in store order, unsorted.
\<close>

theorem export_data:
  "sorted (map fst (data (snd (generateFile r txt s))))
   \<and> mset (data (snd (generateFile r txt s))) = image_mset triple (mset (songData s))
   \<and> (\<forall>t. filter (\<lambda>n. fst n = t) (data (snd (generateFile r txt s))) =
            map triple (filter (\<lambda>n. tick n = t) (songData s)))
   \<and> sorted (map fst (data (snd (generateApiFile r txt s))))
   \<and> mset (data (snd (generateApiFile r txt s))) = image_mset triple (mset (songData s))
   \<and> (\<forall>t. filter (\<lambda>n. fst n = t) (data (snd (generateApiFile r txt s))) =
            map triple (filter (\<lambda>n. tick n = t) (songData s)))
   \<and> data (snd (generateFile r ''1.0''
         (s\<lparr>songData := [\<lparr>tick = 0, pitch = 12, inst = 0\<rparr>, \<lparr>tick = 5, pitch = 0, inst = 1\<rparr>]\<rparr>)))
       = [(0, 0, 12), (5, 1, 0)]
   \<and> data (snd (generateFile r ''1.0''
         (s\<lparr>songData := [\<lparr>tick = 5, pitch = 0, inst = 1\<rparr>, \<lparr>tick = 0, pitch = 12, inst = 0\<rparr>]\<rparr>)))
       = [(0, 0, 12), (5, 1, 0)]
   \<and> getNotesAt (snd (generateFile r ''1.0''
         (s\<lparr>songData := [\<lparr>tick = 0, pitch = 12, inst = 0\<rparr>, \<lparr>tick = 5, pitch = 0, inst = 1\<rparr>]\<rparr>))) 0
       = [\<lparr>sound = Some ''note.harp'', pitch' = 1\<rparr>]
   \<and> getNotesAt (snd (generateFile r ''1.0''
         (s\<lparr>songData := [\<lparr>tick = 5, pitch = 0, inst = 1\<rparr>, \<lparr>tick = 0, pitch = 12, inst = 0\<rparr>]\<rparr>))) 0
       = [\<lparr>sound = Some ''note.harp'', pitch' = 1\<rparr>]
   \<and> data (snd (generateApiFile r ''1.0''
         (s\<lparr>songData := [\<lparr>tick = 0, pitch = 12, inst = 0\<rparr>, \<lparr>tick = 5, pitch = 0, inst = 1\<rparr>]\<rparr>)))
       = [(0, 0, 12), (5, 1, 0)]
   \<and> data (snd (generateApiFile r ''1.0''
         (s\<lparr>songData := [\<lparr>tick = 5, pitch = 0, inst = 1\<rparr>, \<lparr>tick = 0, pitch = 12, inst = 0\<rparr>]\<rparr>)))
       = [(0, 0, 12), (5, 1, 0)]
   \<and> getNotesAt (snd (generateApiFile r ''1.0''
         (s\<lparr>songData := [\<lparr>tick = 0, pitch = 12, inst = 0\<rparr>, \<lparr>tick = 5, pitch = 0, inst = 1\<rparr>]\<rparr>))) 0
       = [\<lparr>sound = Some ''note.harp'', pitch' = 1\<rparr>]
   \<and> getNotesAt (snd (generateApiFile r ''1.0''
         (s\<lparr>songData := [\<lparr>tick = 5, pitch = 0, inst = 1\<rparr>, \<lparr>tick = 0, pitch = 12, inst = 0\<rparr>]\<rparr>))) 0
       = [\<lparr>sound = Some ''note.harp'', pitch' = 1\<rparr>]
   \<and> index (instruments (snd (generateFile r txt s))) 0 = Some ''note.harp''
   \<and> index (instruments (snd (generateApiFile r txt s))) 0 = Some ''note.harp''
   \<and> map entry_tick (script_songData (snd (generateBedrockScript r a))) = map tick (songData a)"
proof -
  let ?xs = "[\<lparr>tick = 0, pitch = 12, inst = 0\<rparr>, \<lparr>tick = 5, pitch = 0, inst = 1\<rparr>] :: int Note list"
  let ?ys = "[\<lparr>tick = 5, pitch = 0, inst = 1\<rparr>, \<lparr>tick = 0, pitch = 12, inst = 0\<rparr>] :: int Note list"
  have ex: "getNotesAt (snd (generateFile r ''1.0'' (s\<lparr>songData := zs\<rparr>))) 0
              = [\<lparr>sound = Some ''note.harp'', pitch' = 1\<rparr>]"
    if "data (snd (generateFile r ''1.0'' (s\<lparr>songData := zs\<rparr>))) = [(0, 0, 12), (5, 1, 0)]" for zs
    using that by (simp add: getNotesAt_def generateFile_def Let_def index_def)
  have d1: "data (snd (generateFile r ''1.0'' (s\<lparr>songData := ?xs\<rparr>))) = [(0, 0, 12), (5, 1, 0)]"
    and d2: "data (snd (generateFile r ''1.0'' (s\<lparr>songData := ?ys\<rparr>))) = [(0, 0, 12), (5, 1, 0)]"
    by (simp_all add: data_generateFile triple_def)
  have exB: "getNotesAt (snd (generateApiFile r ''1.0'' (s\<lparr>songData := zs\<rparr>))) 0
              = [\<lparr>sound = Some ''note.harp'', pitch' = 1\<rparr>]"
    if "data (snd (generateApiFile r ''1.0'' (s\<lparr>songData := zs\<rparr>))) = [(0, 0, 12), (5, 1, 0)]"
    for zs
    using that by (simp add: getNotesAt_def generateApiFile_def Let_def index_def)
  have b1: "data (snd (generateApiFile r ''1.0'' (s\<lparr>songData := ?xs\<rparr>))) = [(0, 0, 12), (5, 1, 0)]"
    and b2: "data (snd (generateApiFile r ''1.0'' (s\<lparr>songData := ?ys\<rparr>))) = [(0, 0, 12), (5, 1, 0)]"
    by (simp_all add: data_generateApiFile triple_def)
  have I: "index (instruments (snd (generateFile r txt s))) 0 = Some ''note.harp''"
    "index (instruments (snd (generateApiFile r txt s))) 0 = Some ''note.harp''"
    by (simp_all add: generateFile_def generateApiFile_def Let_def index_def)
  have A: "map entry_tick (script_songData (snd (generateBedrockScript r a))) = map tick (songData a)"
    by (simp add: generateBedrockScript_def Let_def comp_def)
  have D1: "sorted (map fst (data (snd (generateFile r txt s))))"
    and B1: "sorted (map fst (data (snd (generateApiFile r txt s))))"
    unfolding data_generateFile data_generateApiFile by (rule sorted_triples)+
  have D2: "mset (data (snd (generateFile r txt s))) = image_mset triple (mset (songData s))"
    and B2: "mset (data (snd (generateApiFile r txt s))) = image_mset triple (mset (songData s))"
    unfolding data_generateFile data_generateApiFile by simp_all
  have D3: "filter (\<lambda>n. fst n = t) (data (snd (generateFile r txt s))) =
              map triple (filter (\<lambda>n. tick n = t) (songData s))"
    and B3: "filter (\<lambda>n. fst n = t) (data (snd (generateApiFile r txt s))) =
              map triple (filter (\<lambda>n. tick n = t) (songData s))" for t
    unfolding data_generateFile data_generateApiFile by (rule stable_triples)+
  show ?thesis
    by (intro conjI allI)
       (rule D1 D2 D3 B1 B2 B3 d1 d2 ex[OF d1] ex[OF d2] b1 b2 exB[OF b1] exB[OF b2] I A)+
qed

text \<open>
  The claim as the specification words it fails for the export of variant A: for a store
  with a note at tick 5 added before a note at tick 0, the exported notes are in that order.
\<close>

theorem export_data_counterexample:
  "songData (toggle 0 12 ''harp'' (toggle 5 0 ''bass'' init_A))
     = [\<lparr>tick = 5, pitch = 0, inst = ''bass''\<rparr>, \<lparr>tick = 0, pitch = 12, inst = ''harp''\<rparr>]
   \<and> map entry_tick (script_songData (snd (generateBedrockScript 0
         (toggle 0 12 ''harp'' (toggle 5 0 ''bass'' init_A))))) = [5, 0]
   \<and> \<not> sorted [5, 0 :: int]"
  by (simp add: generateBedrockScript_def Let_def toggle_def toggleNote_def selectInstrument_def
      init_A_def)

subsection \<open>The identifier and the file name\<close>

lemma lastDownload_generateFile:
  "lastDownload (fst (generateFile r txt s)) =
     ''music'' @ show_int (moduleId (snd (generateFile r txt s))) @ ''.js''"
  by (simp add: generateFile_def Let_def lastDownload_def)

lemma lastDownload_generateApiFile:
  "lastDownload (fst (generateApiFile r txt s)) =
     ''music'' @ show_int (moduleId (snd (generateApiFile r txt s))) @ ''.js''"
  by (simp add: generateApiFile_def Let_def lastDownload_def)

lemma lastDownload_generateBedrockScript:
  "lastDownload (fst (generateBedrockScript r a)) =
     ''music'' @ show_int (SONG_ID (snd (generateBedrockScript r a))) @ ''.js''"
  by (simp add: generateBedrockScript_def Let_def lastDownload_def)

text \<open>
  Claim C6, as amended. For every value \<open>r\<close> of the random source, \<open>0 \<le> r < 1\<close>, the
  identifier that \<^verbatim>\<open>generateFile\<close> and \<^verbatim>\<open>generateApiFile\<close> draw is an integer from 100 to
  999, and the one that \<^verbatim>\<open>generateBedrockScript\<close> of variant A draws is an integer from 1 to
  1000. All three offer the file under the name \<^verbatim>\<open>music<id>.js\<close>.
\<close>

theorem export_identifier:
  assumes "0 \<le> r" and "r < 1"
  shows "100 \<le> moduleId (snd (generateFile r txt s))
       \<and> moduleId (snd (generateFile r txt s)) \<le> 999
       \<and> lastDownload (fst (generateFile r txt s)) =
           ''music'' @ show_int (moduleId (snd (generateFile r txt s))) @ ''.js''
       \<and> 100 \<le> moduleId (snd (generateApiFile r txt s))
       \<and> moduleId (snd (generateApiFile r txt s)) \<le> 999
       \<and> lastDownload (fst (generateApiFile r txt s)) =
           ''music'' @ show_int (moduleId (snd (generateApiFile r txt s))) @ ''.js''
       \<and> 1 \<le> SONG_ID (snd (generateBedrockScript r a))
       \<and> SONG_ID (snd (generateBedrockScript r a)) \<le> 1000
       \<and> lastDownload (fst (generateBedrockScript r a)) =
           ''music'' @ show_int (SONG_ID (snd (generateBedrockScript r a))) @ ''.js''"
proof -
  have D: "moduleId (snd (generateFile r txt s)) = random_int r 900 100"
    by (simp add: generateFile_def Let_def)
  have B: "moduleId (snd (generateApiFile r txt s)) = random_int r 900 100"
    by (simp add: generateApiFile_def Let_def)
  have A: "SONG_ID (snd (generateBedrockScript r a)) = random_int r 1000 1"
    by (simp add: generateBedrockScript_def Let_def)
  show ?thesis
    using floor_random[OF assms, of 900 100] floor_random[OF assms, of 1000 1]
    by (simp add: D B A lastDownload_generateFile[unfolded D] lastDownload_generateApiFile[unfolded B]
        lastDownload_generateBedrockScript[unfolded A])
qed

text \<open>The theorem for the draw \<open>1/2\<close>: the files are \<^verbatim>\<open>music550.js\<close> and \<^verbatim>\<open>music501.js\<close>.\<close>

theorem export_identifier_witness:
  "(0::real) \<le> 1 / 2 \<and> (1 / 2 :: real) < 1
   \<and> moduleId (snd (generateFile (1 / 2) ''1'' init)) = 550
   \<and> lastDownload (fst (generateFile (1 / 2) ''1'' init)) = ''music550.js''
   \<and> SONG_ID (snd (generateBedrockScript (1 / 2) init_A)) = 501
   \<and> lastDownload (fst (generateBedrockScript (1 / 2) init_A)) = ''music501.js''"
proof -
  have D: "moduleId (snd (generateFile (1 / 2) ''1'' init)) = 550"
    by (simp add: generateFile_def Let_def random_int_def)
  have A: "SONG_ID (snd (generateBedrockScript (1 / 2) init_A)) = 501"
    by (simp add: generateBedrockScript_def Let_def random_int_def)
  have "show_int 550 = ''550''" "show_int 501 = ''501''"
    by (simp_all add: show_int_def show_nat.simps digit_def)
  with export_identifier[of "1 / 2" "''1''" init init_A] D A show ?thesis by simp
qed

text \<open>
  The claim as the specification words it fails for the export of variant A: the draws 0
  and 0.9995 give the identifiers 1 and 1000, outside 100 to 999.
\<close>

theorem export_identifier_counterexample:
  "SONG_ID (snd (generateBedrockScript 0 init_A)) = 1
   \<and> SONG_ID (snd (generateBedrockScript (1999 / 2000) init_A)) = 1000"
  by (simp add: generateBedrockScript_def Let_def random_int_def)

subsection \<open>What the export leaves behind\<close>

text \<open>
  Claim C7, as amended. Apart from drawing the identifier and handing the file to the
  browser, \<^verbatim>\<open>generateFile\<close> and \<^verbatim>\<open>generateApiFile\<close> change one thing: they sort the store in
  place. After the call the store holds the same notes, sorted by tick, notes of one tick in
  their former order; it is the store it was exactly when that was in tick order already.
  The transport, the selected instrument and the scheduled advancers are what they were.
  \<^verbatim>\<open>generateBedrockScript\<close> of variant A leaves the whole state as it was.
\<close>

theorem export_frame:
  "songData (fst (generateFile r txt s)) = sort_key tick (songData s)
   \<and> mset (songData (fst (generateFile r txt s))) = mset (songData s)
   \<and> (songData (fst (generateFile r txt s)) = songData s) = sorted (map tick (songData s))
   \<and> (fst (generateFile r txt s))\<lparr>songData := songData s, effects := effects s\<rparr> = s
   \<and> songData (fst (generateApiFile r txt s)) = sort_key tick (songData s)
   \<and> mset (songData (fst (generateApiFile r txt s))) = mset (songData s)
   \<and> (songData (fst (generateApiFile r txt s)) = songData s) = sorted (map tick (songData s))
   \<and> (fst (generateApiFile r txt s))\<lparr>songData := songData s, effects := effects s\<rparr> = s
   \<and> (fst (generateBedrockScript r a))\<lparr>effects := effects a\<rparr> = a"
  by (simp add: songData_generateFile songData_generateApiFile sort_key_fixed
      del: sort_key_simps)
     (simp add: generateFile_def generateApiFile_def generateBedrockScript_def Let_def)

text \<open>
  The claim as the specification words it fails in variant D: a store with a note at tick
  5 added before a note at tick 0 is in the other order after the export.
\<close>

theorem export_frame_counterexample:
  "songData (toggle 0 12 0 (toggle 5 0 1 init))
     = [\<lparr>tick = 5, pitch = 0, inst = 1\<rparr>, \<lparr>tick = 0, pitch = 12, inst = 0\<rparr>]
   \<and> songData (fst (generateFile 0 ''1.0'' (toggle 0 12 0 (toggle 5 0 1 init))))
     = [\<lparr>tick = 0, pitch = 12, inst = 0\<rparr>, \<lparr>tick = 5, pitch = 0, inst = 1\<rparr>]"
  by (simp add: songData_generateFile songData_toggle occupied_def init_def)

subsection \<open>The pitch ratio\<close>

text \<open>
  Claim C9, as amended. The pitch-to-frequency mapper is \<open>2^((pitchIndex - 12) / 12)\<close>, with
  the values 1 at index 12, 1/2 at index 0 and 2 at index 24. The query \<^verbatim>\<open>getNotesAt\<close> of
  the module that \<^verbatim>\<open>generateFile\<close> and \<^verbatim>\<open>generateApiFile\<close> export computes exactly this for
  the pitch of every entry it returns. The script that \<^verbatim>\<open>generateBedrockScript\<close> of variant A
  exports carries the value of the formula rounded to two decimals, which is the exact
  value at the indices 0, 12 and 24.
\<close>

theorem pitch_ratio:
  "pitchRatio 12 = 1 \<and> pitchRatio 0 = 1 / 2 \<and> pitchRatio 24 = 2
   \<and> map pitch' (getNotesAt this t) =
       map (\<lambda>n. pitchRatio (snd (snd n))) (filter (\<lambda>n. fst n = t) (data this))
   \<and> map entry_pitch (playSong_notes (snd (generateBedrockScript r a)) t) =
       map (\<lambda>n. real_of_int (hundredths (pitchRatio (pitch n))) / 100)
         (filter (\<lambda>n. tick n = t) (songData a))
   \<and> real_of_int (hundredths (pitchRatio 12)) / 100 = pitchRatio 12
   \<and> real_of_int (hundredths (pitchRatio 0)) / 100 = pitchRatio 0
   \<and> real_of_int (hundredths (pitchRatio 24)) / 100 = pitchRatio 24"
proof -
  have v: "pitchRatio 12 = 1" "pitchRatio 0 = 1 / 2" "pitchRatio 24 = 2"
    by (simp_all add: pitchRatio_def centerIndex_def powr_minus_divide)
  have q: "map pitch' (getNotesAt this t) =
       map (\<lambda>n. pitchRatio (snd (snd n))) (filter (\<lambda>n. fst n = t) (data this))"
    by (simp add: getNotesAt_def pitchRatio_formula comp_def)
  have e: "map entry_pitch (playSong_notes (snd (generateBedrockScript r a)) t) =
       map (\<lambda>n. real_of_int (hundredths (pitchRatio (pitch n))) / 100)
         (filter (\<lambda>n. tick n = t) (songData a))"
    by (simp add: playSong_notes_def generateBedrockScript_def Let_def pitchRatio_formula
        filter_map comp_def)
  have h: "real_of_int (hundredths (pitchRatio 12)) / 100 = pitchRatio 12"
    "real_of_int (hundredths (pitchRatio 0)) / 100 = pitchRatio 0"
    "real_of_int (hundredths (pitchRatio 24)) / 100 = pitchRatio 24"
    unfolding v by (simp_all add: hundredths_def)
  from v q e h show ?thesis by simp
qed

text \<open>
  The claim as the specification words it fails for the export of variant A: for a note of
  pitch index 1 at tick 0, the exported script plays at tick 0 a note with the pitch 0.53,
  which is not \<open>2^(-11/12)\<close>.
\<close>

theorem pitch_ratio_counterexample:
  "songData (toggle 0 1 ''harp'' init_A) = [\<lparr>tick = 0, pitch = 1, inst = ''harp''\<rparr>]
   \<and> map entry_pitch
         (playSong_notes (snd (generateBedrockScript 0 (toggle 0 1 ''harp'' init_A))) 0)
     = [53 / 100]
   \<and> pitchRatio 1 \<noteq> 53 / 100"
proof -
  have s: "songData (toggle 0 1 ''harp'' init_A) = [\<lparr>tick = 0, pitch = 1, inst = ''harp''\<rparr>]"
    by (simp add: songData_toggle occupied_def init_A_def)
  have 1: "map entry_pitch (playSong_notes (snd (generateBedrockScript 0
             (toggle 0 1 ''harp'' init_A))) 0) = [53 / 100]"
    by (simp add: playSong_notes_def generateBedrockScript_def Let_def s pitchRatio_formula
        hundredths_pitch_1)
  have 2: "pitchRatio 1 \<noteq> 53 / 100"
  proof
    assume "pitchRatio 1 = 53 / 100"
    then have x: "(2 powr (- 11 / 12) :: real) = 53 / 100"
      by (simp add: pitchRatio_def centerIndex_def)
    have "(53 / 100 :: real) ^ 12 = 1 / 2048"
      unfolding x[symmetric] by (rule twelfth_power)
    then show False by (simp add: power_divide)
  qed
  from s 1 2 show ?thesis by simp
qed

section \<open>The store's invariant in sessions\<close>

text \<open>
  Only clicks and the export touch the store, and both keep it free of a second note in a
  cell: every store that a session of variant D or of variant A reaches has at most one
  note per cell.
\<close>

lemma uniqueCells_sort_key: "uniqueCells (sort_key tick xs) = uniqueCells xs"
proof -
  have "mset (map (\<lambda>n. (tick n, pitch n)) (sort_key tick xs)) = mset (map (\<lambda>n. (tick n, pitch n)) xs)"
    by simp
  then show ?thesis unfolding uniqueCells_def by (rule mset_eq_imp_distinct_iff)
qed

lemma songData_play: "songData (play sp s) = songData s"
  by (simp add: play_def setInterval_def Let_def)

lemma songData_pause: "songData (pause s) = songData s"
  by (simp add: pause_def clearInterval_def Let_def split: option.splits)

lemma songData_stop: "songData (stop s) = songData s"
  by (simp add: stop_def updateUI_def songData_pause)

lemma songData_advance: "songData (advance s) = songData s"
  by (simp add: advance_def Let_def fold_playPreview updateUI_def songData_stop)

lemma songData_seek: "songData (seek v sp s) = songData s"
  by (simp add: seek_def Let_def updateUI_def songData_play songData_pause)

lemma uniqueCells_step:
  assumes "uniqueCells (songData s)"
  shows "uniqueCells (songData (step s e))"
  using assms
  by (cases e)
     (simp_all add: songData_play songData_pause songData_stop songData_advance songData_seek
        uniqueCells_toggleNote selectInstrument_def songData_generateFile uniqueCells_sort_key
        del: sort_key_simps)

lemma uniqueCells_foldl:
  "uniqueCells (songData s) \<Longrightarrow> uniqueCells (songData (foldl step s evs))"
  by (induction evs arbitrary: s) (simp_all add: uniqueCells_step)

lemma uniqueCells_run: "uniqueCells (songData (run evs))"
  unfolding run_def by (rule uniqueCells_foldl) (simp add: init_def uniqueCells_def)

lemma songData_play_A: "songData (play_A s) = songData s"
  by (simp add: play_A_def setInterval_def Let_def)

lemma songData_pause_A: "songData (pause_A s) = songData s"
  by (simp add: pause_A_def clearInterval_def split: option.splits)

lemma songData_stop_A: "songData (stop_A s) = songData s"
  by (simp add: stop_A_def updateTimeDisplay_A_def songData_pause_A)

lemma songData_advance_A: "songData (advance_A repeat s) = songData s"
  by (simp add: advance_A_def Let_def fold_playPreview updateTimeDisplay_A_def songData_stop_A)

lemma songData_speedChange_A: "songData (speedChange_A sp s) = songData s"
  by (simp add: speedChange_A_def Let_def songData_play_A songData_pause_A)

lemma uniqueCells_step_A:
  assumes "uniqueCells (songData s)"
  shows "uniqueCells (songData (step_A s e))"
  using assms
  by (cases e)
     (simp_all add: songData_play_A songData_pause_A songData_stop_A songData_advance_A
        songData_speedChange_A seek_A_def updateTimeDisplay_A_def uniqueCells_toggleNote
        selectInstrument_def generateBedrockScript_def Let_def)

lemma uniqueCells_foldl_A:
  "uniqueCells (songData s) \<Longrightarrow> uniqueCells (songData (foldl step_A s evs))"
  by (induction evs arbitrary: s) (simp_all add: uniqueCells_step_A)

lemma uniqueCells_run_A: "uniqueCells (songData (run_A evs))"
  unfolding run_A_def by (rule uniqueCells_foldl_A) (simp add: init_A_def uniqueCells_def)

end
